theory Spec2Isabelle
  imports Main "HOL-Library.Word"
begin

section \<open>Return values and panics\<close>

text \<open>
  Modelled from the spec: the \<open>RetVal\<close> enumeration is declared in another file of the
  package; the constructors are the values that the modelled code and the specification
  name.
\<close>

datatype RetVal =
    Ok | UserNotFound | ChannelNotFound | AttributeNotFound | TaskNotFound
  | MissingArguments | NoConfigFound | InvalidDblPtr | InvalidCfgStruct
  | Interrupted | UseDefaultValue | ReplyNotMatched | MatcherNotFound
  | TimeoutExpired | RetryPrompt

text \<open>
  Modelled from the spec: \<open>TaskRetVal\<close> is an integer type declared in another file of
  the package (a process exit status converts to it); the named values are the ones the
  modelled code uses, every other exit status is \<open>ExitStatus n\<close>.
\<close>

datatype TaskRetVal =
    Normal | Fail | MechanismFail | ConfigurationError | Success | ExitStatus nat

text \<open>Run-time panics of Go that the modelled code can raise.\<close>

datatype go_panic =
    IndexOutOfRange | SliceBoundsOutOfRange | NilPointerDereference | InterfaceConversion

section \<open>Reply-wait: \<open>promptWait\<close> and the public prompt operations\<close>

datatype replyDisposition = replied | replyInterrupted | retryPrompt

text \<open>
  A \<open>replyWaiter\<close>: the compiled pattern (identified by its text) and the channel the
  reply is sent to. The channel is created by \<open>make(chan reply)\<close>, so it is unbuffered;
  it is identified by a number.
\<close>

record replyWaiter =
  re :: string
  replyChannel :: nat

record replyMatcher =
  user :: string
  channel :: string

record reply =
  matched :: bool
  disposition :: replyDisposition
  rep :: string

type_synonym replies_table = "replyMatcher \<Rightarrow> replyWaiter list option"

text \<open>
  What one call of \<open>promptWait\<close> comes to: it returns a string and a \<open>RetVal\<close>, or its
  goroutine stays blocked in a channel operation, or it panics.
\<close>

datatype wait_outcome =
    Returned string RetVal
  | BlockedOnSend nat
  | BlockedOnReceive
  | Panicked go_panic

text \<open>
  The environment of one waiting goroutine is the list of replies that other goroutines
  send to its channel, in order. Each carries a flag: \<open>True\<close> when the reply reaches the
  channel only after the 45 second timer of the \<open>select\<close> that waits for it has fired.
  With no reply left, the timer of a \<open>select\<close> fires and a plain receive blocks for ever.
\<close>

type_synonym delivery = "bool \<times> reply"

text \<open>
  Lines 241 to 250 of \<open>promptWait\<close>: the result for a reply whose disposition is
  \<open>replied\<close>.
\<close>

definition replyResult :: "reply \<Rightarrow> wait_outcome" where
  "replyResult got =
     (if \<not> matched got then
        (if rep got = ''='' then Returned [] UseDefaultValue
         else if rep got = ''-'' then Returned [] Interrupted
         else Returned [] ReplyNotMatched)
      else Returned (rep got) Ok)"

text \<open>
  The timeout branch of the \<open>select\<close> when the table has an entry for the matcher
  (lines 212 to 224). The head of the entry is dropped from the table, and the reply
  \<open>{false, retryPrompt, ""}\<close> is sent on \<open>waitlist[0].replyChannel\<close>, where
  \<open>waitlist\<close> is still the list read before the update. The channel is unbuffered and
  only the goroutine that created it in \<open>promptInternal\<close> ever receives from it: a send
  on the caller's own channel never completes; a send on the channel of another waiter
  is taken by that waiter's \<open>select\<close>. The third component lists the sends that
  completed. On an empty \<open>waitlist\<close> the slice expression \<open>waitlist[1:]\<close> panics.
\<close>

definition timeoutEvict ::
  "replyWaiter \<Rightarrow> replyMatcher \<Rightarrow> replies_table \<Rightarrow> replyWaiter list
     \<Rightarrow> wait_outcome \<times> replies_table \<times> (nat \<times> reply) list" where
  "timeoutEvict w m tbl waitlist =
     (case waitlist of
        [] \<Rightarrow> (Panicked SliceBoundsOutOfRange, tbl, [])
      | h # rest \<Rightarrow>
          (let tbl' = (if length waitlist = 1 then tbl(m := None) else tbl(m \<mapsto> rest))
           in if replyChannel h = replyChannel w
              then (BlockedOnSend (replyChannel h), tbl', [])
              else (Returned [] TimeoutExpired, tbl',
                    [(replyChannel h, \<lparr>matched = False, disposition = retryPrompt, rep = []\<rparr>)])))"

text \<open>
  \<open>promptWait\<close> from the \<open>select\<close> on (lines 206 to 250), which is also
  \<open>promptWait\<close> called with \<open>retry = true\<close>: the recursive call of line 238.
\<close>

fun awaitReply ::
  "replyWaiter \<Rightarrow> replyMatcher \<Rightarrow> replies_table \<Rightarrow> delivery list
     \<Rightarrow> wait_outcome \<times> replies_table \<times> (nat \<times> reply) list" where
  "awaitReply w m tbl [] =
     (case tbl m of
        Some waitlist \<Rightarrow> timeoutEvict w m tbl waitlist
      | None \<Rightarrow> (BlockedOnReceive, tbl, []))"
| "awaitReply w m tbl ((late, got) # ds) =
     (case (if late then tbl m else None) of
        Some waitlist \<Rightarrow> timeoutEvict w m tbl waitlist
      | None \<Rightarrow>
          (if disposition got = replyInterrupted then (Returned [] Interrupted, tbl, [])
           else if disposition got = retryPrompt then awaitReply w m tbl ds
           else (replyResult got, tbl, [])))"

text \<open>
  \<open>promptWait\<close>. \<open>sendRet\<close> is what the connector returns for the prompt message
  (\<open>SendProtocolUserMessage\<close> or \<open>SendProtocolUserChannelMessage\<close>, which belong to
  the connector).
\<close>

definition promptWait ::
  "replyWaiter \<Rightarrow> replyMatcher \<Rightarrow> bool \<Rightarrow> RetVal \<Rightarrow> replies_table \<Rightarrow> delivery list
     \<Rightarrow> wait_outcome \<times> replies_table \<times> (nat \<times> reply) list" where
  "promptWait w m retry sendRet tbl ds =
     (if \<not> retry then
        (case tbl m of
           Some waiters \<Rightarrow> awaitReply w m (tbl(m \<mapsto> waiters @ [w])) ds
         | None \<Rightarrow>
             (if sendRet \<noteq> Ok then (Returned [] sendRet, tbl, [])
              else awaitReply w m (tbl(m \<mapsto> [w])) ds))
      else awaitReply w m tbl ds)"

text \<open>
  The loop shared, line for line, by \<open>PromptForReply\<close>, \<open>PromptUserForReply\<close> and
  \<open>PromptUserChannelForReply\<close>. \<open>pI i\<close> is what the \<open>i\<close>-th call of
  \<open>promptInternal\<close> returns. The result carries, next to the returned pair, the number
  of calls of \<open>promptInternal\<close> that were made.
\<close>

function promptRetryLoop ::
  "(nat \<Rightarrow> string \<times> RetVal) \<Rightarrow> nat \<Rightarrow> string \<times> RetVal \<Rightarrow> (string \<times> RetVal) \<times> nat" where
  "promptRetryLoop pI i cur =
     (if i < 3 then
        (if snd (pI i) = RetryPrompt then promptRetryLoop pI (i + 1) (pI i)
         else (pI i, i + 1))
      else
        (if snd cur = RetryPrompt then ((fst cur, Interrupted), i) else (cur, i)))"
  by pat_completeness auto
termination
  by (relation "measure (\<lambda>(pI, i, cur). 3 - i)") auto

text \<open>
  The oracle for \<open>promptInternal\<close>: attempt number, regexID, user, channel, prompt.
  The variables \<open>rep\<close> and \<open>ret\<close> start at their zero values.
\<close>

type_synonym promptInternal_oracle =
  "nat \<Rightarrow> string \<Rightarrow> string \<Rightarrow> string \<Rightarrow> string \<Rightarrow> string \<times> RetVal"

text \<open>
  The \<open>Robot\<close> handed to a task: a copy of the user and channel of the run context
  (\<open>makeRobot\<close>). Its \<open>id\<close> field only serves to find the context again.
\<close>

record Robot =
  User :: string
  Channel :: string

definition PromptForReply ::
  "promptInternal_oracle \<Rightarrow> Robot \<Rightarrow> string \<Rightarrow> string \<Rightarrow> (string \<times> RetVal) \<times> nat" where
  "PromptForReply pI r regexID prompt =
     promptRetryLoop (\<lambda>i. pI i regexID (Robot.User r) (Robot.Channel r) prompt) 0 ([], Ok)"

definition PromptUserForReply ::
  "promptInternal_oracle \<Rightarrow> Robot \<Rightarrow> string \<Rightarrow> string \<Rightarrow> string \<Rightarrow> (string \<times> RetVal) \<times> nat" where
  "PromptUserForReply pI r regexID usr prompt =
     promptRetryLoop (\<lambda>i. pI i regexID usr [] prompt) 0 ([], Ok)"

definition PromptUserChannelForReply ::
  "promptInternal_oracle \<Rightarrow> Robot \<Rightarrow> string \<Rightarrow> string \<Rightarrow> string \<Rightarrow> string
     \<Rightarrow> (string \<times> RetVal) \<times> nat" where
  "PromptUserChannelForReply pI r regexID usr chan prompt =
     promptRetryLoop (\<lambda>i. pI i regexID usr chan prompt) 0 ([], Ok)"

section \<open>Tasks, task specifications and the run context\<close>

text \<open>
  The fields of \<open>botTask\<close>, \<open>botJob\<close> and \<open>botPlugin\<close> that the modelled code
  reads. The embedded \<open>*botTask\<close> is the field \<open>jobTask\<close> or \<open>pluginTask\<close>. A
  \<open>parameter\<close> is the pair of its \<open>Name\<close> and \<open>Value\<close>.
\<close>

record botTask =
  name :: string
  NameSpace :: string
  Description :: string
  HistoryLogs :: int
  Disabled :: bool
  reason :: string

type_synonym parameter = "string \<times> string"

record botJob =
  Verbose :: bool
  Parameters :: "parameter list"
  jobTask :: botTask

record botPlugin =
  AdminCommands :: "string list"
  pluginTask :: botTask

text \<open>The \<open>interface{}\<close> values that hold a \<open>*botPlugin\<close> or a \<open>*botJob\<close>.\<close>

datatype task = PluginTask botPlugin | JobTask botJob

fun getTask :: "task \<Rightarrow> botTask \<times> botPlugin option \<times> botJob option" where
  "getTask (PluginTask p) = (pluginTask p, Some p, None)"
| "getTask (JobTask j) = (jobTask j, None, Some j)"

text \<open>
  \<open>taskList\<close>: the slice \<open>t\<close> (here \<open>taskList_t\<close>) and the index \<open>nameMap\<close>.
  Indexing the slice out of range panics.
\<close>

record taskList =
  taskList_t :: "task list"
  nameMap :: "string \<Rightarrow> int option"

definition getTaskByName :: "taskList \<Rightarrow> string \<Rightarrow> go_panic + task option" where
  "getTaskByName tlist nm =
     (case nameMap tlist nm of
        None \<Rightarrow> Inr None
      | Some ti \<Rightarrow>
          (if 0 \<le> ti \<and> ti < int (length (taskList_t tlist))
           then Inr (Some (taskList_t tlist ! nat ti))
           else Inl IndexOutOfRange))"

text \<open>
  \<open>taskSpec\<close>; \<open>task\<close> is nil (\<open>None\<close>) until \<open>AddTask\<close> populates it. The field
  \<open>Parameters\<close> is \<open>tsParameters\<close> here.
\<close>

record taskSpec =
  Name :: string
  Command :: string
  Arguments :: "string list"
  tsParameters :: "parameter list"
  task :: "task option"

record scheduledTask =
  Schedule :: string
  spec :: taskSpec

text \<open>
  The fields of \<open>botContext\<close> that the modelled code reads or writes. \<open>id\<close> is
  \<open>id_run\<close>; the Go \<open>int\<close> is 64 bits wide (a 64-bit platform). \<open>logger\<close> records
  whether a history logger is attached.
\<close>

record botContext =
  User :: string
  Channel :: string
  id_run :: "64 word"
  tasks :: taskList
  bypassSecurityChecks :: bool
  elevated :: bool
  environment :: "string \<Rightarrow> string option"
  nextTasks :: "taskSpec list"
  logger :: bool
  pipeName :: string
  currentTask :: "task option"

definition makeRobot :: "botContext \<Rightarrow> Robot" where
  "makeRobot c = \<lparr>Robot.User = botContext.User c, Robot.Channel = botContext.Channel c\<rparr>"

text \<open>
  The global \<open>robot\<close> settings and the package constants that the modelled code reads;
  \<open>histPrefix\<close> and \<open>paramPrefix\<close> are constants declared in another file of the
  package.
\<close>

record robotConfig =
  adminUsers :: "string list"
  port :: string
  installPath :: string
  configPath :: string
  scheduledTasks :: "scheduledTask list"
  histPrefix :: string
  paramPrefix :: string

section \<open>Robot methods\<close>

definition CheckAdmin :: "robotConfig \<Rightarrow> Robot \<Rightarrow> bool" where
  "CheckAdmin cfg r = list_ex (\<lambda>adminUser. Robot.User r = adminUser) (adminUsers cfg)"

text \<open>\<open>identifierRe\<close> is the unanchored pattern \<open>[\w-]+\<close>: some character must be a
  letter, a digit, an underscore or a hyphen.\<close>

definition isWordChar :: "char \<Rightarrow> bool" where
  "isWordChar ch =
     (let n = (of_char ch :: nat)
      in (48 \<le> n \<and> n \<le> 57) \<or> (65 \<le> n \<and> n \<le> 90) \<or> n = 95 \<or> (97 \<le> n \<and> n \<le> 122))"

definition identifierRe_MatchString :: "string \<Rightarrow> bool" where
  "identifierRe_MatchString s = list_ex (\<lambda>ch. isWordChar ch \<or> ch = CHR ''-'') s"

text \<open>
  \<open>SetParameter\<close> and \<open>AddTask\<close>, on the context \<open>c\<close> that \<open>getContext\<close>
  resolves for the robot (the context of the run, while the run is registered).
\<close>

definition SetParameter :: "botContext \<Rightarrow> string \<Rightarrow> string \<Rightarrow> bool \<times> botContext" where
  "SetParameter c nm val =
     (if \<not> identifierRe_MatchString nm then (False, c)
      else (True, c\<lparr>environment := (environment c)(nm \<mapsto> val)\<rparr>))"

definition AddTask :: "botContext \<Rightarrow> string \<Rightarrow> string list \<Rightarrow> go_panic + (RetVal \<times> botContext)" where
  "AddTask c nm cmdargs =
     (case getTaskByName (tasks c) nm of
        Inl p \<Rightarrow> Inl p
      | Inr None \<Rightarrow> Inr (TaskNotFound, c)
      | Inr (Some t) \<Rightarrow>
          (case getTask t of
             (tk, plugin, job) \<Rightarrow>
               (if plugin \<noteq> None then
                  (if length cmdargs = 0 then Inr (MissingArguments, c)
                   else if length (hd cmdargs) = 0 then Inr (MissingArguments, c)
                   else Inr (Ok, c\<lparr>nextTasks := nextTasks c @
                          [\<lparr>Name = nm, Command = hd cmdargs, Arguments = tl cmdargs,
                            tsParameters = [], task = Some t\<rparr>]\<rparr>))
                else Inr (Ok, c\<lparr>nextTasks := nextTasks c @
                          [\<lparr>Name = nm, Command = ''run'', Arguments = [],
                            tsParameters = [], task = Some t\<rparr>]\<rparr>))))"

section \<open>The run registry\<close>

text \<open>
  \<open>botRunID.idx\<close> and the table \<open>activeRobots.i\<close>. The counter is a Go \<open>int\<close>:
  \<open>idx++\<close> wraps around. Each critical section is one step of the model.
\<close>

record registry =
  idx :: "64 word"
  activeRobots :: "64 word \<Rightarrow> botContext option"

text \<open>\<open>fmt.Sprintf("%d", n)\<close>: the decimal digits of an integer.\<close>

function decimalNat :: "nat \<Rightarrow> string" where
  "decimalNat n =
     (if n < 10 then [char_of (48 + n)]
      else decimalNat (n div 10) @ [char_of (48 + n mod 10)])"
  by pat_completeness auto
termination
  by (relation "measure (\<lambda>n. n)") auto

definition fmtInt :: "int \<Rightarrow> string" where
  "fmtInt i = (if i < 0 then CHR ''-'' # decimalNat (nat (- i)) else decimalNat (nat i))"

definition nextRunID :: "64 word \<Rightarrow> 64 word" where
  "nextRunID i = (if i + 1 = 0 then 1 else i + 1)"

definition registerActive :: "robotConfig \<Rightarrow> botContext \<Rightarrow> registry \<Rightarrow> botContext \<times> registry" where
  "registerActive cfg c reg =
     (let c1 = c\<lparr>environment := (environment c)(''GOPHER_HTTP_POST'' \<mapsto> ''http://'' @ port cfg),
                 nextTasks := []\<rparr>;
          i = nextRunID (idx reg);
          c2 = c1\<lparr>id_run := i,
                  environment := (environment c1)
                    (''GOPHER_INSTALLDIR'' \<mapsto> installPath cfg,
                     ''GOPHER_CONFIGDIR'' \<mapsto>
                        (if length (configPath cfg) > 0 then configPath cfg else installPath cfg),
                     ''GOPHER_CALLER_ID'' \<mapsto> fmtInt (sint i))\<rparr>
      in (c2, reg\<lparr>idx := i, activeRobots := (activeRobots reg)(i \<mapsto> c2)\<rparr>))"

definition deregister :: "botContext \<Rightarrow> registry \<Rightarrow> registry" where
  "deregister c reg = reg\<lparr>activeRobots := (activeRobots reg)(id_run c := None)\<rparr>"

definition getBotContextInt :: "registry \<Rightarrow> 64 word \<Rightarrow> botContext option" where
  "getBotContextInt reg i = activeRobots reg i"

text \<open>
  A history of the registry: runs register (each with its own context) and registered
  runs deregister. \<open>registryRun\<close> returns the final registry and the IDs that were
  assigned, in the order of assignment.
\<close>

datatype registry_op = Register botContext | Deregister "64 word"

fun registryRun :: "robotConfig \<Rightarrow> registry \<Rightarrow> registry_op list \<Rightarrow> registry \<times> 64 word list" where
  "registryRun cfg reg [] = (reg, [])"
| "registryRun cfg reg (Register c # ops) =
     (case registerActive cfg c reg of
        (c', reg') \<Rightarrow>
          (case registryRun cfg reg' ops of (reg'', ids) \<Rightarrow> (reg'', id_run c' # ids)))"
| "registryRun cfg reg (Deregister i # ops) =
     registryRun cfg (reg\<lparr>activeRobots := (activeRobots reg)(i := None)\<rparr>) ops"

section \<open>The scheduler\<close>

datatype LogLevel = Trace | Debug | Info | Warn | Error

type_synonym logLine = "LogLevel \<times> string"

text \<open>
  The loop of \<open>scheduleTasks\<close> over \<open>robot.scheduledTasks\<close>, on the snapshot
  \<open>tasks\<close> of the registry. The result is the list of entries given to
  \<open>taskRunner.AddFunc\<close> (the schedule string and the scheduled entry whose task the
  function runs) and the lines logged, the line of \<open>getTaskByName\<close> included.
\<close>

fun scheduleLoop ::
  "taskList \<Rightarrow> scheduledTask list \<Rightarrow> go_panic + ((string \<times> scheduledTask) list \<times> logLine list)" where
  "scheduleLoop tsnap [] = Inr ([], [])"
| "scheduleLoop tsnap (st # sts) =
     (case getTaskByName tsnap (Name (spec st)) of
        Inl p \<Rightarrow> Inl p
      | Inr None \<Rightarrow>
          (case scheduleLoop tsnap sts of
             Inl p \<Rightarrow> Inl p
           | Inr (added, logged) \<Rightarrow>
               Inr (added,
                    (Error, ''Task '' @ [CHR 0x27] @ Name (spec st) @ [CHR 0x27]
                              @ '' not found calling getTaskByName'')
                    # (Error, ''Task not found when scheduling task: '' @ Name (spec st))
                    # logged))
      | Inr (Some t) \<Rightarrow>
          (if Disabled (fst (getTask t)) then
             (case scheduleLoop tsnap sts of
                Inl p \<Rightarrow> Inl p
              | Inr (added, logged) \<Rightarrow>
                  Inr (added,
                       (Error, ''Not scheduling disabled task '' @ [CHR 0x27] @ Name (spec st)
                                 @ [CHR 0x27] @ ''; reason: '' @ reason (fst (getTask t)))
                       # logged))
           else
             (case scheduleLoop tsnap sts of
                Inl p \<Rightarrow> Inl p
              | Inr (added, logged) \<Rightarrow>
                  Inr ((Schedule st, st) # added,
                       (Info, ''Scheduling job '' @ [CHR 0x27] @ Name (spec st) @ [CHR 0x27]
                                @ '' with schedule: '' @ Schedule st)
                       # logged))))"

definition scheduleTasks ::
  "robotConfig \<Rightarrow> taskList \<Rightarrow> go_panic + ((string \<times> scheduledTask) list \<times> logLine list)" where
  "scheduleTasks cfg currentTasks = scheduleLoop currentTasks (scheduledTasks cfg)"

section \<open>\<open>runPipeline\<close>\<close>

subsection \<open>History (lines 412 to 455)\<close>

text \<open>
  \<open>historyLog\<close> and \<open>taskHistory\<close>. The indices are Go \<open>int\<close> values, 64 bits
  wide: \<open>th.NextIndex++\<close> wraps around.
\<close>

record historyLog =
  LogIndex :: "64 word"
  CreateTime :: string

record taskHistory =
  NextIndex :: "64 word"
  Histories :: "historyLog list"

text \<open>
  Lines 430 to 440, on the record \<open>th\<close> that was checked out: the new entry is
  appended and the list is cut to its last \<open>rememberRuns\<close> entries. The slice
  expression panics when its lower bound is beyond the length. \<open>rememberRuns\<close>
  and the length are compared as integers; the difference is taken only when the
  length is the greater, and a negative \<open>rememberRuns\<close> ends in the panic whether
  the subtraction wraps or not.
\<close>

definition appendHistory :: "int \<Rightarrow> string \<Rightarrow> taskHistory \<Rightarrow> go_panic + taskHistory" where
  "appendHistory rememberRuns start th =
     (let runIndex = NextIndex th;
          hist = \<lparr>LogIndex = runIndex, CreateTime = start\<rparr>;
          hs = Histories th @ [hist];
          l = int (length hs)
      in if l > rememberRuns then
           (if 0 \<le> l - rememberRuns \<and> l - rememberRuns \<le> l
            then Inr \<lparr>NextIndex = NextIndex th + 1, Histories = drop (nat (l - rememberRuns)) hs\<rparr>
            else Inl SliceBoundsOutOfRange)
         else Inr \<lparr>NextIndex = NextIndex th + 1, Histories = hs\<rparr>)"

text \<open>
  Modelled from the spec: the persistent store is reached through \<open>checkoutDatum\<close> and
  \<open>updateDatum\<close>, which belong to the brain. A checkout fills the
  destination with the stored value when there is one and leaves it at its zero value
  otherwise; an update that returns \<open>Ok\<close> stores the value. What the two calls and
  \<open>NewHistory\<close> return, and the formatted start time, are given for each run.
\<close>

record runOracle =
  checkoutRet :: RetVal
  updateRet :: RetVal
  startTime :: string
  newHistoryFails :: bool

type_synonym histStore = "string \<Rightarrow> taskHistory option"

definition checkedOut :: "histStore \<Rightarrow> string \<Rightarrow> taskHistory" where
  "checkedOut store key =
     (case store key of Some th \<Rightarrow> th | None \<Rightarrow> \<lparr>NextIndex = 0, Histories = []\<rparr>)"

text \<open>
  The history block: the run index, the store afterwards and whether a logger was
  attached to the context.
\<close>

definition historyBlock ::
  "robotConfig \<Rightarrow> botTask \<Rightarrow> bool \<Rightarrow> string \<Rightarrow> runOracle \<Rightarrow> histStore
     \<Rightarrow> go_panic + (64 word \<times> histStore \<times> bool)" where
  "historyBlock cfg tk isJob pName orc store =
     (if HistoryLogs tk > 0 \<or> isJob then
        (let rememberRuns = (if HistoryLogs tk = 0 then 1 else HistoryLogs tk);
             key = histPrefix cfg @ pName
         in if checkoutRet orc \<noteq> Ok then Inr (0, store, False)
            else
              (case appendHistory rememberRuns (startTime orc) (checkedOut store key) of
                 Inl p \<Rightarrow> Inl p
               | Inr th \<Rightarrow>
                   (if updateRet orc \<noteq> Ok
                    then Inr (NextIndex (checkedOut store key), store, False)
                    else Inr (NextIndex (checkedOut store key), store(key \<mapsto> th),
                              HistoryLogs tk > 0 \<and> \<not> newHistoryFails orc))))
      else Inr (0, store, False))"

text \<open>Successive runs of the same task, one oracle for each; the store is threaded.\<close>

fun historyRuns ::
  "robotConfig \<Rightarrow> botTask \<Rightarrow> bool \<Rightarrow> runOracle list \<Rightarrow> histStore \<Rightarrow> go_panic + histStore" where
  "historyRuns cfg tk isJob [] store = Inr store"
| "historyRuns cfg tk isJob (orc # orcs) store =
     (case historyBlock cfg tk isJob (name tk) orc store of
        Inl p \<Rightarrow> Inl p
      | Inr (runIndex, store', lg) \<Rightarrow> historyRuns cfg tk isJob orcs store')"

subsection \<open>Environment (lines 462 to 490)\<close>

definition envPassThrough :: "string list" where
  "envPassThrough = [''HOME'', ''HOSTNAME'', ''LANG'', ''PATH'', ''USER'']"

text \<open>The body shared by the three loops: the key is set only when it does not exist.\<close>

definition setIfAbsent ::
  "(string \<Rightarrow> string option) \<Rightarrow> string \<Rightarrow> string \<Rightarrow> (string \<Rightarrow> string option)" where
  "setIfAbsent e k v = (case e k of Some old \<Rightarrow> e | None \<Rightarrow> e(k \<mapsto> v))"

text \<open>
  \<open>storedEnv\<close> is \<open>None\<close> when \<open>checkoutDatum\<close> reports that nothing is stored for
  the namespace, and otherwise the entries of the stored map in the order in which
  \<open>range\<close> visits them. \<open>getenv\<close> is \<open>os.Getenv\<close>.
\<close>

definition assembleEnvironment ::
  "task \<Rightarrow> (string \<times> string) list option \<Rightarrow> (string \<Rightarrow> string)
     \<Rightarrow> (string \<Rightarrow> string option) \<Rightarrow> (string \<Rightarrow> string option)" where
  "assembleEnvironment t storedEnv getenv e0 =
     (let e1 = (case t of
                  JobTask job \<Rightarrow> foldl (\<lambda>e p. setIfAbsent e (fst p) (snd p)) e0 (Parameters job)
                | PluginTask plugin \<Rightarrow> e0);
          e2 = (case storedEnv of
                  Some kvs \<Rightarrow> foldl (\<lambda>e kv. setIfAbsent e (fst kv) (snd kv)) e1 kvs
                | None \<Rightarrow> e1)
      in foldl (\<lambda>e p. setIfAbsent e p (getenv p)) e2 envPassThrough)"

subsection \<open>The task loop (lines 501 to 575)\<close>

text \<open>
  While a task runs it calls methods of its \<open>Robot\<close>. Of these, \<open>AddTask\<close> and
  \<open>SetParameter\<close> change the run context.
\<close>

datatype robot_call = CallAddTask string "string list" | CallSetParameter string string

fun applyCalls :: "botContext \<Rightarrow> robot_call list \<Rightarrow> go_panic + botContext" where
  "applyCalls c [] = Inr c"
| "applyCalls c (CallAddTask nm cmdargs # calls) =
     (case AddTask c nm cmdargs of
        Inl p \<Rightarrow> Inl p
      | Inr (rv, c') \<Rightarrow> applyCalls c' calls)"
| "applyCalls c (CallSetParameter nm val # calls) =
     applyCalls (snd (SetParameter c nm val)) calls"

text \<open>
  What the loop takes from elsewhere, for its iteration \<open>i\<close>:
  \<open>checkAuthorization\<close> and \<open>checkElevation\<close> give their results; \<open>handler\<close>
  stands for the dispatch of a task that is not disabled (the Go handler or the external
  process, the rest of \<open>callTask\<close>) and gives the calls the task makes on its
  \<open>Robot\<close>, in order, the error string and the return value.
\<close>

record oracles =
  checkAuthorization :: "nat \<Rightarrow> botContext \<Rightarrow> task \<Rightarrow> string \<Rightarrow> string list \<Rightarrow> TaskRetVal"
  checkElevation :: "nat \<Rightarrow> botContext \<Rightarrow> task \<Rightarrow> string \<Rightarrow> TaskRetVal \<times> bool"
  handler ::
    "nat \<Rightarrow> botContext \<Rightarrow> task \<Rightarrow> string \<Rightarrow> string list \<Rightarrow> robot_call list \<times> string \<times> TaskRetVal"

text \<open>
  \<open>callTask\<close>. A panic raised by a call of the task ends the model of the run; what
  \<open>checkPanic\<close> does with it is not modelled.
\<close>

definition callTask ::
  "oracles \<Rightarrow> nat \<Rightarrow> botContext \<Rightarrow> task \<Rightarrow> string \<Rightarrow> string list
     \<Rightarrow> go_panic + (botContext \<times> string \<times> TaskRetVal)" where
  "callTask orc i b t cmd args =
     (let b1 = b\<lparr>currentTask := Some t\<rparr>;
          tk = fst (getTask t)
      in if Disabled tk then
           Inr (b1, ''callTask failed on disabled task '' @ name tk @ ''; reason: '' @ reason tk,
                ConfigurationError)
         else
           (case handler orc i b1 t cmd args of
              (calls, errString, retval) \<Rightarrow>
                (case applyCalls b1 calls of
                   Inl p \<Rightarrow> Inl p
                 | Inr b2 \<Rightarrow> Inr (b2, errString, retval))))"

text \<open>
  Lines 503 to 518. \<open>plugin\<close> is the variable declared at the top of \<open>runPipeline\<close>
  from the starting task; the loop assigns \<open>isPlugin\<close> but declares a new \<open>plugin\<close>
  in the block where it takes the next task (line 562), so this one keeps its value.
  The result is \<open>True\<close> when the command is refused.
\<close>

definition adminGate ::
  "robotConfig \<Rightarrow> Robot \<Rightarrow> botPlugin option \<Rightarrow> bool \<Rightarrow> string \<Rightarrow> go_panic + bool" where
  "adminGate cfg r plugin isPlugin cmd =
     (if isPlugin then
        (case plugin of
           None \<Rightarrow> Inl NilPointerDereference
         | Some p \<Rightarrow>
             Inr (length (AdminCommands p) > 0 \<and> list_ex (\<lambda>i. cmd = i) (AdminCommands p)
                  \<and> \<not> CheckAdmin cfg r))
      else Inr False)"

text \<open>Lines 519 to 534; the first component is \<open>False\<close> when the run fails here.\<close>

definition securityGate ::
  "oracles \<Rightarrow> nat \<Rightarrow> botContext \<Rightarrow> task \<Rightarrow> string \<Rightarrow> string list \<Rightarrow> bool \<times> botContext" where
  "securityGate orc i b t cmd args =
     (if \<not> bypassSecurityChecks b then
        (if checkAuthorization orc i b t cmd args \<noteq> Success then (False, b)
         else if \<not> elevated b then
           (case checkElevation orc i b t cmd of
              (eret, required) \<Rightarrow>
                (if eret \<noteq> Success then (False, b)
                 else if required then (True, b\<lparr>elevated := True\<rparr>)
                 else (True, b)))
         else (True, b))
      else (True, b))"

datatype message = SayMsg string | ReplyMsg string

datatype loop_end = Ended TaskRetVal | Panic go_panic | Unfinished

text \<open>
  What the loop leaves behind: how it ended (\<open>Unfinished\<close>: still running when the
  fuel ran out), the context and the variable \<open>t\<close>, the messages sent, and a record of
  the run: the calls of \<open>callTask\<close> (\<open>ran\<close>: the task, command and arguments;
  \<open>called\<close>: the pass of the loop and the context the call was made on), the
  values that the calls returned (\<open>rets\<close>), the task specifications appended to
  \<open>nextTasks\<close> while tasks ran, and the ones taken from its head.
\<close>

record loopResult =
  ending :: loop_end
  finalBot :: botContext
  finalTask :: task
  sent :: "message list"
  ran :: "(task \<times> string \<times> string list) list"
  called :: "(nat \<times> botContext) list"
  rets :: "TaskRetVal list"
  queued :: "taskSpec list"
  dequeued :: "taskSpec list"

definition halt :: "loop_end \<Rightarrow> botContext \<Rightarrow> task \<Rightarrow> loopResult" where
  "halt e b t =
     \<lparr>ending = e, finalBot = b, finalTask = t, sent = [], ran = [], called = [],
       rets = [], queued = [], dequeued = []\<rparr>"

definition adminDenied :: string where
  "adminDenied = ''Sorry, that command is only available to bot administrators''"

text \<open>
  One pass through the body of the loop. It either leaves the loop (\<open>Stop\<close>, with
  what this pass leaves behind) or goes round again (\<open>Again\<close>) after the head
  \<open>ts\<close> of \<open>nextTasks\<close> has been taken: with the context, the new values of
  \<open>t\<close>, \<open>isPlugin\<close>, \<open>command\<close> and \<open>args\<close>, the task specifications
  that the task appended, the context that \<open>callTask\<close> was called on and the value
  \<open>ret\<close> that it returned.
\<close>

datatype loop_step =
    Stop loopResult
  | Again botContext taskSpec task bool string "string list" "taskSpec list"
      botContext TaskRetVal

definition loopBody ::
  "robotConfig \<Rightarrow> oracles \<Rightarrow> Robot \<Rightarrow> botPlugin option \<Rightarrow> bool \<Rightarrow> nat \<Rightarrow> botContext
     \<Rightarrow> task \<Rightarrow> bool \<Rightarrow> string \<Rightarrow> string list \<Rightarrow> loop_step" where
  "loopBody cfg orc r plugin interactive i b t isPlugin cmd args =
     (case adminGate cfg r plugin isPlugin cmd of
        Inl p \<Rightarrow> Stop (halt (Panic p) b t)
      | Inr refused \<Rightarrow>
          (if refused then Stop ((halt (Ended Fail) b t)\<lparr>sent := [SayMsg adminDenied]\<rparr>)
           else
             (case securityGate orc i b t cmd args of
                (pass, b1) \<Rightarrow>
                  (if \<not> pass then Stop (halt (Ended Fail) b1 t)
                   else
                     (case callTask orc i b1 t cmd args of
                        Inl p \<Rightarrow>
                          Stop ((halt (Panic p) b1 t)
                            \<lparr>ran := [(t, cmd, args)], called := [(i, b1)]\<rparr>)
                      | Inr (b2, errString, ret) \<Rightarrow>
                          (let added = drop (length (nextTasks b1)) (nextTasks b2)
                           in if ret \<noteq> Normal then
                                Stop ((halt (Ended ret) b2 t)
                                  \<lparr>sent := (if interactive \<and> errString \<noteq> []
                                            then [ReplyMsg errString] else []),
                                   ran := [(t, cmd, args)], called := [(i, b1)],
                                   rets := [ret], queued := added\<rparr>)
                              else
                                (case nextTasks b2 of
                                   [] \<Rightarrow>
                                     Stop ((halt (Ended ret) b2 t)
                                       \<lparr>ran := [(t, cmd, args)], called := [(i, b1)],
                                        rets := [ret], queued := added\<rparr>)
                                 | ts # rest \<Rightarrow>
                                     (case task ts of
                                        None \<Rightarrow>
                                          Stop ((halt (Panic InterfaceConversion)
                                              (b2\<lparr>nextTasks := rest\<rparr>) t)
                                            \<lparr>ran := [(t, cmd, args)], called := [(i, b1)],
                                             rets := [ret],
                                             queued := added, dequeued := [ts]\<rparr>)
                                      | Some t' \<Rightarrow>
                                          (let isPlugin' = (fst (snd (getTask t')) \<noteq> None)
                                           in Again (b2\<lparr>nextTasks := rest\<rparr>) ts t' isPlugin'
                                                (if isPlugin' then Command ts else ''run'')
                                                (if isPlugin' then Arguments ts else [])
                                                added b1 ret)))))))))"

text \<open>
  The loop, for at most \<open>n\<close> passes; the record of the run is put together from the
  passes.
\<close>

fun pipelineLoop ::
  "nat \<Rightarrow> robotConfig \<Rightarrow> oracles \<Rightarrow> Robot \<Rightarrow> botPlugin option \<Rightarrow> bool \<Rightarrow> nat \<Rightarrow> botContext
     \<Rightarrow> task \<Rightarrow> bool \<Rightarrow> string \<Rightarrow> string list \<Rightarrow> loopResult" where
  "pipelineLoop 0 cfg orc r plugin interactive i b t isPlugin cmd args = halt Unfinished b t"
| "pipelineLoop (Suc n) cfg orc r plugin interactive i b t isPlugin cmd args =
     (case loopBody cfg orc r plugin interactive i b t isPlugin cmd args of
        Stop res \<Rightarrow> res
      | Again b' ts t' isPlugin' cmd' args' added b1 ret \<Rightarrow>
          (let res = pipelineLoop n cfg orc r plugin interactive (i + 1) b' t' isPlugin' cmd' args'
           in res\<lparr>ran := (t, cmd, args) # ran res,
                  called := (i, b1) # called res,
                  rets := ret # rets res,
                  queued := added @ queued res,
                  dequeued := ts # dequeued res\<rparr>))"


section \<open>Reference descriptions and example data\<close>

text \<open>
  The specification's description of a public prompt operation, for the outcomes
  \<open>f 0\<close>, \<open>f 1\<close>, \<open>f 2\<close> of the successive internal waits: the first outcome other
  than \<open>RetryPrompt\<close> is returned at once; when all three are \<open>RetryPrompt\<close> the
  caller gets \<open>Interrupted\<close>. The second component counts the internal waits.
\<close>

definition retryThenInterrupt :: "(nat \<Rightarrow> string \<times> RetVal) \<Rightarrow> (string \<times> RetVal) \<times> nat" where
  "retryThenInterrupt f =
     (if snd (f 0) \<noteq> RetryPrompt then (f 0, 1)
      else if snd (f 1) \<noteq> RetryPrompt then (f 1, 2)
      else if snd (f 2) \<noteq> RetryPrompt then (f 2, 3)
      else ((fst (f 2), Interrupted), 3))"

text \<open>A matcher and two waiters with distinct channels.\<close>

definition aliceGeneral :: replyMatcher where
  "aliceGeneral = \<lparr>user = ''alice'', channel = ''general''\<rparr>"

definition waiterA :: replyWaiter where
  "waiterA = \<lparr>re = ''yes|no'', replyChannel = 1\<rparr>"

definition waiterB :: replyWaiter where
  "waiterB = \<lparr>re = ''[0-9]+'', replyChannel = 2\<rparr>"

text \<open>
  The scheduler's criterion, following the specification: an entry is scheduled when its
  task name resolves in the snapshot and the task is not disabled; \<open>skipReason\<close> is
  the line logged for an entry that is not.
\<close>

definition schedulable :: "taskList \<Rightarrow> scheduledTask \<Rightarrow> bool" where
  "schedulable tsnap st =
     (case getTaskByName tsnap (Name (spec st)) of
        Inr (Some t) \<Rightarrow> \<not> Disabled (fst (getTask t))
      | Inr None \<Rightarrow> False
      | Inl p \<Rightarrow> False)"

definition skipReason :: "taskList \<Rightarrow> scheduledTask \<Rightarrow> logLine" where
  "skipReason tsnap st =
     (case getTaskByName tsnap (Name (spec st)) of
        Inr (Some t) \<Rightarrow>
          (Error, ''Not scheduling disabled task '' @ [CHR 0x27] @ Name (spec st)
                    @ [CHR 0x27] @ ''; reason: '' @ reason (fst (getTask t)))
      | Inr None \<Rightarrow> (Error, ''Task not found when scheduling task: '' @ Name (spec st))
      | Inl p \<Rightarrow> (Error, []))"

text \<open>The index that \<open>nameMap\<close> holds for a name, if any, lies within the slice.\<close>

definition indexInRange :: "taskList \<Rightarrow> string \<Rightarrow> bool" where
  "indexInRange tsnap nm =
     (case nameMap tsnap nm of
        None \<Rightarrow> True
      | Some ti \<Rightarrow> 0 \<le> ti \<and> ti < int (length (taskList_t tsnap)))"

text \<open>The lower layers of the environment as lists of pairs.\<close>

definition jobParameters :: "task \<Rightarrow> parameter list" where
  "jobParameters t = (case t of JobTask job \<Rightarrow> Parameters job | PluginTask plugin \<Rightarrow> [])"

definition storedParameters :: "(string \<times> string) list option \<Rightarrow> (string \<times> string) list" where
  "storedParameters storedEnv = (case storedEnv of Some kvs \<Rightarrow> kvs | None \<Rightarrow> [])"

text \<open>
  A registry of four tasks: the disabled job \<open>backup\<close>, the job \<open>hello\<close>, the plugin
  \<open>files\<close> whose command \<open>delete\<close> is for administrators, and the plugin
  \<open>chain\<close>.
\<close>

definition backupJob :: task where
  "backupJob = JobTask \<lparr>Verbose = False, Parameters = [],
     jobTask = \<lparr>name = ''backup'', NameSpace = ''backup'', Description = [], HistoryLogs = 2,
                Disabled = True, reason = ''maintenance''\<rparr>\<rparr>"

definition helloJob :: task where
  "helloJob = JobTask \<lparr>Verbose = False,
     Parameters = [(''greeting'', ''hi''), (''HOME'', ''/srv/hello'')],
     jobTask = \<lparr>name = ''hello'', NameSpace = ''hello'', Description = [], HistoryLogs = 0,
                Disabled = False, reason = []\<rparr>\<rparr>"

definition filesPlugin :: botPlugin where
  "filesPlugin = \<lparr>AdminCommands = [''delete''],
     pluginTask = \<lparr>name = ''files'', NameSpace = ''files'', Description = [], HistoryLogs = 0,
                   Disabled = False, reason = []\<rparr>\<rparr>"

definition chainPlugin :: botPlugin where
  "chainPlugin = \<lparr>AdminCommands = [],
     pluginTask = \<lparr>name = ''chain'', NameSpace = ''chain'', Description = [], HistoryLogs = 0,
                   Disabled = False, reason = []\<rparr>\<rparr>"

definition exampleTasks :: taskList where
  "exampleTasks = \<lparr>taskList_t = [backupJob, helloJob, PluginTask filesPlugin, PluginTask chainPlugin],
     nameMap = [''backup'' \<mapsto> 0, ''hello'' \<mapsto> 1, ''files'' \<mapsto> 2, ''chain'' \<mapsto> 3]\<rparr>"

definition scheduleEntry :: "string \<Rightarrow> string \<Rightarrow> parameter list \<Rightarrow> scheduledTask" where
  "scheduleEntry sched nm ps =
     \<lparr>Schedule = sched,
      spec = \<lparr>Name = nm, Command = [], Arguments = [], tsParameters = ps, task = None\<rparr>\<rparr>"

definition exampleConfig :: robotConfig where
  "exampleConfig = \<lparr>adminUsers = [''root''], port = ''127.0.0.1:8880'',
     installPath = ''/opt/gopherbot'', configPath = [],
     scheduledTasks =
       [scheduleEntry ''0 0 3 * * *'' ''backup'' [(''target'', ''db'')],
        scheduleEntry ''@hourly'' ''backup'' [(''target'', ''files'')],
        scheduleEntry ''@daily'' ''hello'' [],
        scheduleEntry ''@daily'' ''gone'' []],
     histPrefix = ''bot:histories:'', paramPrefix = ''bot:parameters:''\<rparr>"

definition exampleContext :: botContext where
  "exampleContext = \<lparr>User = ''alice'', Channel = ''general'', id_run = 7, tasks = exampleTasks,
     bypassSecurityChecks = False, elevated = False, environment = Map.empty, nextTasks = [],
     logger = False, pipeName = ''chain'', currentTask = None\<rparr>"

text \<open>
  The last \<open>k\<close> elements of a list, and the history entries that successive runs
  create from the index \<open>n\<close> on.
\<close>

definition lastN :: "nat \<Rightarrow> 'a list \<Rightarrow> 'a list" where
  "lastN k xs = drop (length xs - k) xs"

fun entriesFrom :: "64 word \<Rightarrow> runOracle list \<Rightarrow> historyLog list" where
  "entriesFrom n [] = []"
| "entriesFrom n (orc # orcs) = \<lparr>LogIndex = n, CreateTime = startTime orc\<rparr> # entriesFrom (n + 1) orcs"

definition okOracle :: "string \<Rightarrow> runOracle" where
  "okOracle start = \<lparr>checkoutRet = Ok, updateRet = Ok, startTime = start, newHistoryFails = False\<rparr>"

definition deployTask :: botTask where
  "deployTask = \<lparr>name = ''deploy'', NameSpace = ''deploy'', Description = [], HistoryLogs = 2,
     Disabled = False, reason = []\<rparr>"

text \<open>A registry whose counter stands at \<open>-1\<close>, and a short history of registrations.\<close>

definition wrapRegistry :: registry where
  "wrapRegistry = \<lparr>idx = - 1, activeRobots = Map.empty\<rparr>"

definition exampleOps :: "registry_op list" where
  "exampleOps = [Register exampleContext, Register exampleContext, Deregister 1,
                 Register exampleContext]"

text \<open>
  Oracles that let every command pass the security checks, with a first task that
  queues the command \<open>delete\<close> of the plugin \<open>files\<close> and returns \<open>Normal\<close>.
\<close>

definition chainOracles :: oracles where
  "chainOracles = \<lparr>
     checkAuthorization = (\<lambda>i b t cmd args. Success),
     checkElevation = (\<lambda>i b t cmd. (Success, False)),
     handler = (\<lambda>i b t cmd args.
        if i = 0 then ([CallAddTask ''files'' [''delete'', ''a.txt'']], [], Normal)
        else ([], [], Normal))\<rparr>"






section \<open>Verified properties\<close>

declare promptRetryLoop.simps [simp del]

lemma promptRetryLoop_unrolled: "promptRetryLoop f 0 z = retryThenInterrupt f"
  by (simp add: promptRetryLoop.simps retryThenInterrupt_def numeral_2_eq_2 numeral_3_eq_3)

lemma retryThenInterrupt_never_retry: "snd (fst (retryThenInterrupt f)) \<noteq> RetryPrompt"
  by (simp add: retryThenInterrupt_def)

lemma retryThenInterrupt_calls: "1 \<le> snd (retryThenInterrupt f) \<and> snd (retryThenInterrupt f) \<le> 3"
  by (simp add: retryThenInterrupt_def)

text \<open>
  C5. Each of \<open>PromptForReply\<close>, \<open>PromptUserForReply\<close> and
  \<open>PromptUserChannelForReply\<close> runs the internal wait again while its outcome is
  \<open>RetryPrompt\<close>, three times at most; any other outcome is returned at once, and when
  the third outcome is still \<open>RetryPrompt\<close> the caller gets \<open>Interrupted\<close>. No
  operation returns \<open>RetryPrompt\<close>.
\<close>

theorem prompt_operations_retry:
  "PromptForReply pI r regexID prompt
     = retryThenInterrupt (\<lambda>i. pI i regexID (Robot.User r) (Robot.Channel r) prompt)
   \<and> PromptUserForReply pI r regexID usr prompt
     = retryThenInterrupt (\<lambda>i. pI i regexID usr [] prompt)
   \<and> PromptUserChannelForReply pI r regexID usr chan prompt
     = retryThenInterrupt (\<lambda>i. pI i regexID usr chan prompt)
   \<and> snd (fst (PromptForReply pI r regexID prompt)) \<noteq> RetryPrompt
   \<and> snd (fst (PromptUserForReply pI r regexID usr prompt)) \<noteq> RetryPrompt
   \<and> snd (fst (PromptUserChannelForReply pI r regexID usr chan prompt)) \<noteq> RetryPrompt
   \<and> snd (PromptForReply pI r regexID prompt) \<le> 3
   \<and> snd (PromptUserForReply pI r regexID usr prompt) \<le> 3
   \<and> snd (PromptUserChannelForReply pI r regexID usr chan prompt) \<le> 3"
  unfolding PromptForReply_def PromptUserForReply_def PromptUserChannelForReply_def
    promptRetryLoop_unrolled
  by (simp add: retryThenInterrupt_never_retry retryThenInterrupt_calls)

theorem prompt_operations_retry_witness:
  "PromptForReply (\<lambda>i a b c d. if i < 2 then ([], RetryPrompt) else (''yes'', Ok))
      \<lparr>Robot.User = ''alice'', Robot.Channel = ''general''\<rparr> ''YesNo'' ''Sure?'' = ((''yes'', Ok), 3)
   \<and> PromptUserForReply (\<lambda>i a b c d. ([], RetryPrompt))
      \<lparr>Robot.User = ''alice'', Robot.Channel = ''general''\<rparr> ''YesNo'' ''bob'' ''Sure?''
      = (([], Interrupted), 3)
   \<and> PromptUserChannelForReply (\<lambda>i a b c d. ([], TimeoutExpired))
      \<lparr>Robot.User = ''alice'', Robot.Channel = ''general''\<rparr> ''YesNo'' ''bob'' ''ops'' ''Sure?''
      = (([], TimeoutExpired), 1)"
  using prompt_operations_retry [of "\<lambda>i a b c d. if i < 2 then ([], RetryPrompt) else (''yes'', Ok)"
          "\<lparr>Robot.User = ''alice'', Robot.Channel = ''general''\<rparr>" "''YesNo''" "''Sure?''"]
        prompt_operations_retry [of "\<lambda>i a b c d. ([], RetryPrompt)"
          "\<lparr>Robot.User = ''alice'', Robot.Channel = ''general''\<rparr>" "''YesNo''" "''Sure?''" "''bob''"]
        prompt_operations_retry [of "\<lambda>i a b c d. ([], TimeoutExpired)"
          "\<lparr>Robot.User = ''alice'', Robot.Channel = ''general''\<rparr>" "''YesNo''" "''Sure?''" "''bob''" "''ops''"]
  by (simp add: retryThenInterrupt_def)

lemma awaitReply_retries:
  assumes "\<forall>d \<in> set pre. disposition (snd d) = retryPrompt \<and> (fst d \<longrightarrow> tbl m = None)"
  shows "awaitReply w m tbl (pre @ ds) = awaitReply w m tbl ds"
  using assms
proof (induction pre)
  case Nil
  show ?case by simp
next
  case (Cons d pre)
  obtain late got where d: "d = (late, got)" by (cases d)
  from Cons.prems d have h: "disposition got = retryPrompt" "late \<longrightarrow> tbl m = None"
    by auto
  from Cons.prems have "\<forall>d \<in> set pre. disposition (snd d) = retryPrompt \<and> (fst d \<longrightarrow> tbl m = None)"
    by simp
  then have ih: "awaitReply w m tbl (pre @ ds) = awaitReply w m tbl ds"
    by (rule Cons.IH)
  from h have "awaitReply w m tbl ((late, got) # (pre @ ds)) = awaitReply w m tbl (pre @ ds)"
    by (cases late) simp_all
  with ih d show ?case by simp
qed

lemma awaitReply_replied:
  assumes "disposition got = replied" and "late \<longrightarrow> tbl m = None"
  shows "awaitReply w m tbl ((late, got) # ds) = (replyResult got, tbl, [])"
  using assms by (auto split: option.splits)

text \<open>
  C9. When the reply that ends a wait has disposition \<open>replied\<close> (after any number of
  \<open>retryPrompt\<close> signals): if it did not match, the text \<open>=\<close> gives
  \<open>UseDefaultValue\<close>, the text \<open>-\<close> gives \<open>Interrupted\<close>, any other text gives
  \<open>ReplyNotMatched\<close>, each with the empty string; if it matched, its text is returned
  with \<open>Ok\<close>, whatever the text. A reply is received when it arrives before the timer
  fires, or when the timer fires and the table has no entry for the matcher.
\<close>

theorem promptWait_reply_values:
  assumes "disposition got = replied"
    and "late \<longrightarrow> tbl m = None"
    and "\<forall>d \<in> set pre. disposition (snd d) = retryPrompt \<and> (fst d \<longrightarrow> tbl m = None)"
  shows "fst (awaitReply w m tbl (pre @ (late, got) # ds)) =
           (if matched got then Returned (rep got) Ok
            else if rep got = ''='' then Returned [] UseDefaultValue
            else if rep got = ''-'' then Returned [] Interrupted
            else Returned [] ReplyNotMatched)"
proof -
  have "awaitReply w m tbl (pre @ (late, got) # ds) = awaitReply w m tbl ((late, got) # ds)"
    using assms(3) by (rule awaitReply_retries)
  also have "\<dots> = (replyResult got, tbl, [])"
    using assms(1,2) by (rule awaitReply_replied)
  finally show ?thesis by (simp add: replyResult_def)
qed

theorem promptWait_reply_values_witness:
  "fst (awaitReply waiterA aliceGeneral (Map.empty(aliceGeneral \<mapsto> [waiterA]))
         [(False, \<lparr>matched = False, disposition = retryPrompt, rep = []\<rparr>),
          (False, \<lparr>matched = False, disposition = replied, rep = ''=''\<rparr>)])
     = Returned [] UseDefaultValue
   \<and> fst (awaitReply waiterA aliceGeneral (Map.empty(aliceGeneral \<mapsto> [waiterA]))
         [(False, \<lparr>matched = False, disposition = replied, rep = ''-''\<rparr>)])
     = Returned [] Interrupted
   \<and> fst (awaitReply waiterA aliceGeneral (Map.empty(aliceGeneral \<mapsto> [waiterA]))
         [(False, \<lparr>matched = False, disposition = replied, rep = ''maybe''\<rparr>)])
     = Returned [] ReplyNotMatched
   \<and> fst (awaitReply waiterA aliceGeneral Map.empty
         [(True, \<lparr>matched = True, disposition = replied, rep = ''=''\<rparr>)])
     = Returned ''='' Ok"
  using promptWait_reply_values [of "\<lparr>matched = False, disposition = replied, rep = ''=''\<rparr>" False
          "Map.empty(aliceGeneral \<mapsto> [waiterA])" aliceGeneral
          "[(False, \<lparr>matched = False, disposition = retryPrompt, rep = []\<rparr>)]" waiterA "[]"]
        promptWait_reply_values [of "\<lparr>matched = False, disposition = replied, rep = ''-''\<rparr>" False
          "Map.empty(aliceGeneral \<mapsto> [waiterA])" aliceGeneral "[]" waiterA "[]"]
        promptWait_reply_values [of "\<lparr>matched = False, disposition = replied, rep = ''maybe''\<rparr>" False
          "Map.empty(aliceGeneral \<mapsto> [waiterA])" aliceGeneral "[]" waiterA "[]"]
        promptWait_reply_values [of "\<lparr>matched = True, disposition = replied, rep = ''=''\<rparr>" True
          "Map.empty" aliceGeneral "[]" waiterA "[]"]
  by simp

text \<open>
  C1. What the code does when the timer fires and no reply was delivered. A single waiter
  is dropped from the table and then sends \<open>retryPrompt\<close> on its own channel: it
  stays blocked and \<open>TimeoutExpired\<close> is not returned. With a second waiter queued
  behind the head, the head is dropped and again signals itself; the queued waiter is
  not signalled. Only a waiter that is not the head of the entry returns
  \<open>TimeoutExpired\<close>, after evicting and signalling the head.
\<close>

theorem promptWait_timeout_signals_head:
  "promptWait waiterA aliceGeneral False Ok Map.empty []
     = (BlockedOnSend (replyChannel waiterA), Map.empty, [])
   \<and> promptWait waiterB aliceGeneral False Ok (Map.empty(aliceGeneral \<mapsto> [waiterA])) []
     = (Returned [] TimeoutExpired, Map.empty(aliceGeneral \<mapsto> [waiterB]),
        [(replyChannel waiterA, \<lparr>matched = False, disposition = retryPrompt, rep = []\<rparr>)])
   \<and> awaitReply waiterA aliceGeneral (Map.empty(aliceGeneral \<mapsto> [waiterA, waiterB])) []
     = (BlockedOnSend (replyChannel waiterA), Map.empty(aliceGeneral \<mapsto> [waiterB]), [])"
  by (simp add: promptWait_def timeoutEvict_def waiterA_def waiterB_def)

lemma getTaskByName_total:
  "indexInRange tsnap nm \<Longrightarrow> \<exists>r. getTaskByName tsnap nm = Inr r"
  by (auto simp: indexInRange_def getTaskByName_def split: option.splits)

lemma scheduleLoop_total:
  "list_all (\<lambda>st. indexInRange tsnap (Name (spec st))) sts \<Longrightarrow> \<exists>r. scheduleLoop tsnap sts = Inr r"
proof (induction sts)
  case Nil
  show ?case by simp
next
  case (Cons st sts)
  then obtain r where r: "scheduleLoop tsnap sts = Inr r" by auto
  obtain added logged where al: "r = (added, logged)" by (cases r)
  from Cons.prems obtain q where q: "getTaskByName tsnap (Name (spec st)) = Inr q"
    using getTaskByName_total by auto
  show ?case using r al q by (cases q) auto
qed

lemma scheduleLoop_Cons:
  assumes "scheduleLoop tsnap (st # sts) = Inr (added, logged)"
  shows "\<exists>added' logged'. scheduleLoop tsnap sts = Inr (added', logged')
           \<and> added = (if schedulable tsnap st then [(Schedule st, st)] else []) @ added'
           \<and> (\<not> schedulable tsnap st \<longrightarrow> skipReason tsnap st \<in> set logged)
           \<and> set logged' \<subseteq> set logged"
proof -
  from assms obtain q where q: "getTaskByName tsnap (Name (spec st)) = Inr q"
    by (cases "getTaskByName tsnap (Name (spec st))") auto
  from assms q obtain added' logged' where rest: "scheduleLoop tsnap sts = Inr (added', logged')"
    by (cases q; cases "scheduleLoop tsnap sts") (auto split: if_splits)
  show ?thesis
  proof (cases q)
    case None
    with assms q rest show ?thesis
      by (auto simp: schedulable_def skipReason_def)
  next
    case (Some t)
    with assms q rest show ?thesis
      by (cases "Disabled (fst (getTask t))") (auto simp: schedulable_def skipReason_def)
  qed
qed

lemma scheduleLoop_added:
  "scheduleLoop tsnap sts = Inr (added, logged) \<Longrightarrow> map snd added = filter (schedulable tsnap) sts"
proof (induction sts arbitrary: added logged)
  case Nil
  then show ?case by simp
next
  case (Cons st sts)
  from scheduleLoop_Cons [OF Cons.prems] obtain added' logged' where
    rest: "scheduleLoop tsnap sts = Inr (added', logged')"
    and a: "added = (if schedulable tsnap st then [(Schedule st, st)] else []) @ added'"
    by blast
  from Cons.IH [OF rest] a show ?case by simp
qed

lemma scheduleLoop_logged:
  "scheduleLoop tsnap sts = Inr (added, logged) \<Longrightarrow> st \<in> set sts \<Longrightarrow> \<not> schedulable tsnap st
     \<Longrightarrow> skipReason tsnap st \<in> set logged"
proof (induction sts arbitrary: added logged)
  case Nil
  then show ?case by simp
next
  case (Cons s sts)
  from scheduleLoop_Cons [OF Cons.prems(1)] obtain added' logged' where
    rest: "scheduleLoop tsnap sts = Inr (added', logged')"
    and lg: "\<not> schedulable tsnap s \<longrightarrow> skipReason tsnap s \<in> set logged"
    and sub: "set logged' \<subseteq> set logged"
    by blast
  show ?case
  proof (cases "st = s")
    case True
    with Cons.prems(3) lg show ?thesis by simp
  next
    case False
    with Cons.prems have "st \<in> set sts" by simp
    from Cons.IH [OF rest this Cons.prems(3)] sub show ?thesis by auto
  qed
qed

text \<open>
  C8. When the scheduler rebuilds its schedule on a snapshot of the registry, the
  entries given to the cron schedule are exactly the scheduled entries whose task name
  resolves to a task that is not disabled, in order; every other entry (name not found,
  or task disabled) is not among them and its reason is logged. The rebuild returns
  whenever the indices of the snapshot lie within its slice.
\<close>

theorem scheduleTasks_skips:
  "(list_all (\<lambda>st. indexInRange tsnap (Name (spec st))) (scheduledTasks cfg)
      \<longrightarrow> (\<exists>r. scheduleTasks cfg tsnap = Inr r))
   \<and> (scheduleTasks cfg tsnap = Inr (added, logged) \<longrightarrow>
        map snd added = filter (schedulable tsnap) (scheduledTasks cfg)
        \<and> (\<forall>st \<in> set (scheduledTasks cfg). \<not> schedulable tsnap st \<longrightarrow>
              st \<notin> snd ` set added \<and> skipReason tsnap st \<in> set logged))"
proof (intro conjI impI)
  assume "list_all (\<lambda>st. indexInRange tsnap (Name (spec st))) (scheduledTasks cfg)"
  then show "\<exists>r. scheduleTasks cfg tsnap = Inr r"
    unfolding scheduleTasks_def by (rule scheduleLoop_total)
next
  assume r: "scheduleTasks cfg tsnap = Inr (added, logged)"
  then have l: "scheduleLoop tsnap (scheduledTasks cfg) = Inr (added, logged)"
    by (simp add: scheduleTasks_def)
  from scheduleLoop_added [OF l]
  show a: "map snd added = filter (schedulable tsnap) (scheduledTasks cfg)" by simp
  show "\<forall>st \<in> set (scheduledTasks cfg). \<not> schedulable tsnap st \<longrightarrow>
          st \<notin> snd ` set added \<and> skipReason tsnap st \<in> set logged"
  proof (intro ballI impI conjI)
    fix st assume st: "st \<in> set (scheduledTasks cfg)" and ns: "\<not> schedulable tsnap st"
    have "snd ` set added = set (map snd added)" by simp
    also have "\<dots> = set (filter (schedulable tsnap) (scheduledTasks cfg))" using a by simp
    finally show "st \<notin> snd ` set added" using ns by simp
    from scheduleLoop_logged [OF l st ns] show "skipReason tsnap st \<in> set logged" .
  qed
qed


lemma setIfAbsent_apply:
  "setIfAbsent e k v k' = (case e k' of Some old \<Rightarrow> Some old | None \<Rightarrow> if k' = k then Some v else None)"
  by (auto simp: setIfAbsent_def split: option.splits)

lemma foldl_setIfAbsent_pairs:
  "foldl (\<lambda>e p. setIfAbsent e (fst p) (snd p)) e kvs k
     = (case e k of Some v \<Rightarrow> Some v | None \<Rightarrow> map_of kvs k)"
  by (induction kvs arbitrary: e) (auto simp: setIfAbsent_apply split: option.splits)

lemma foldl_setIfAbsent_getenv:
  "foldl (\<lambda>e p. setIfAbsent e p (getenv p)) e ps k
     = (case e k of Some v \<Rightarrow> Some v | None \<Rightarrow> if k \<in> set ps then Some (getenv k) else None)"
  by (induction ps arbitrary: e) (auto simp: setIfAbsent_apply split: option.splits)

lemma assembleEnvironment_apply:
  "assembleEnvironment t storedEnv getenv e0 k =
     (case e0 k of Some v \<Rightarrow> Some v
      | None \<Rightarrow>
         (case map_of (jobParameters t) k of Some v \<Rightarrow> Some v
          | None \<Rightarrow>
             (case map_of (storedParameters storedEnv) k of Some v \<Rightarrow> Some v
              | None \<Rightarrow> if k \<in> set envPassThrough then Some (getenv k) else None)))"
  by (cases t; cases storedEnv)
     (simp_all add: assembleEnvironment_def jobParameters_def storedParameters_def Let_def
        foldl_setIfAbsent_pairs foldl_setIfAbsent_getenv split: option.splits)

text \<open>
  C2. In the environment that \<open>runPipeline\<close> assembles, for every key: a value that
  the run context already holds stays; otherwise a fixed parameter of the job stays,
  whatever is stored or passed through; otherwise a stored parameter stays, whatever
  the host environment holds.
\<close>

theorem environment_precedence:
  "(e0 k = Some v \<longrightarrow> assembleEnvironment t storedEnv getenv e0 k = Some v)
   \<and> (e0 k = None \<and> map_of (jobParameters t) k = Some v
        \<longrightarrow> assembleEnvironment t storedEnv getenv e0 k = Some v)
   \<and> (e0 k = None \<and> map_of (jobParameters t) k = None \<and> map_of (storedParameters storedEnv) k = Some v
        \<longrightarrow> assembleEnvironment t storedEnv getenv e0 k = Some v)"
  by (simp add: assembleEnvironment_apply)


theorem scheduleTasks_skips_witness:
  "scheduleTasks exampleConfig exampleTasks
     = Inr ([(''@daily'', scheduleEntry ''@daily'' ''hello'' [])],
            [(Error, ''Not scheduling disabled task '' @ [CHR 0x27] @ ''backup'' @ [CHR 0x27] @ ''; reason: maintenance''),
             (Error, ''Not scheduling disabled task '' @ [CHR 0x27] @ ''backup'' @ [CHR 0x27] @ ''; reason: maintenance''),
             (Info, ''Scheduling job '' @ [CHR 0x27] @ ''hello'' @ [CHR 0x27] @ '' with schedule: @daily''),
             (Error, ''Task '' @ [CHR 0x27] @ ''gone'' @ [CHR 0x27] @ '' not found calling getTaskByName''),
             (Error, ''Task not found when scheduling task: gone'')])
   \<and> scheduleEntry ''0 0 3 * * *'' ''backup'' [(''target'', ''db'')]
        \<notin> snd ` set [(''@daily'', scheduleEntry ''@daily'' ''hello'' [])]
   \<and> scheduleEntry ''@hourly'' ''backup'' [(''target'', ''files'')]
        \<notin> snd ` set [(''@daily'', scheduleEntry ''@daily'' ''hello'' [])]"
  using scheduleTasks_skips [of exampleTasks exampleConfig
          "[(''@daily'', scheduleEntry ''@daily'' ''hello'' [])]"
          "[(Error, ''Not scheduling disabled task '' @ [CHR 0x27] @ ''backup'' @ [CHR 0x27] @ ''; reason: maintenance''),
             (Error, ''Not scheduling disabled task '' @ [CHR 0x27] @ ''backup'' @ [CHR 0x27] @ ''; reason: maintenance''),
             (Info, ''Scheduling job '' @ [CHR 0x27] @ ''hello'' @ [CHR 0x27] @ '' with schedule: @daily''),
             (Error, ''Task '' @ [CHR 0x27] @ ''gone'' @ [CHR 0x27] @ '' not found calling getTaskByName''),
             (Error, ''Task not found when scheduling task: gone'')]"]
  by (simp add: scheduleTasks_def exampleConfig_def exampleTasks_def scheduleEntry_def
        getTaskByName_def backupJob_def helloJob_def)

theorem environment_precedence_witness:
  "assembleEnvironment helloJob (Some [(''greeting'', ''stored''), (''token'', ''s3cr3t''), (''PATH'', ''/stored/bin'')])
       (\<lambda>p. ''host'') [''token'' \<mapsto> ''dynamic''] ''token'' = Some ''dynamic''
   \<and> assembleEnvironment helloJob (Some [(''greeting'', ''stored''), (''token'', ''s3cr3t''), (''PATH'', ''/stored/bin'')])
       (\<lambda>p. ''host'') [''token'' \<mapsto> ''dynamic''] ''greeting'' = Some ''hi''
   \<and> assembleEnvironment helloJob (Some [(''greeting'', ''stored''), (''token'', ''s3cr3t''), (''PATH'', ''/stored/bin'')])
       (\<lambda>p. ''host'') [''token'' \<mapsto> ''dynamic''] ''PATH'' = Some ''/stored/bin''"
  using environment_precedence [of "[''token'' \<mapsto> ''dynamic'']" "''token''" "''dynamic''" helloJob
          "Some [(''greeting'', ''stored''), (''token'', ''s3cr3t''), (''PATH'', ''/stored/bin'')]" "\<lambda>p. ''host''"]
        environment_precedence [of "[''token'' \<mapsto> ''dynamic'']" "''greeting''" "''hi''" helloJob
          "Some [(''greeting'', ''stored''), (''token'', ''s3cr3t''), (''PATH'', ''/stored/bin'')]" "\<lambda>p. ''host''"]
        environment_precedence [of "[''token'' \<mapsto> ''dynamic'']" "''PATH''" "''/stored/bin''" helloJob
          "Some [(''greeting'', ''stored''), (''token'', ''s3cr3t''), (''PATH'', ''/stored/bin'')]" "\<lambda>p. ''host''"]
  by (simp add: jobParameters_def storedParameters_def helloJob_def)

text \<open>
  C10. \<open>AddTask\<close> returns \<open>TaskNotFound\<close> when no task has the name, and
  \<open>MissingArguments\<close> when the task is a plugin and \<open>cmdargs\<close> is empty or starts
  with the empty string, leaving the context (and its queue) as it was. Otherwise it
  returns \<open>Ok\<close> and appends one \<open>taskSpec\<close>: for a plugin the first argument as
  command and the others as arguments, for a job the command \<open>run\<close> and no
  arguments, whatever \<open>cmdargs\<close> holds.
\<close>

theorem AddTask_outcomes:
  "(getTaskByName (tasks c) nm = Inr None \<longrightarrow> AddTask c nm cmdargs = Inr (TaskNotFound, c))
   \<and> (getTaskByName (tasks c) nm = Inr (Some (PluginTask p)) \<and> (cmdargs = [] \<or> hd cmdargs = [])
        \<longrightarrow> AddTask c nm cmdargs = Inr (MissingArguments, c))
   \<and> (getTaskByName (tasks c) nm = Inr (Some (PluginTask p)) \<and> cmdargs = a # rest \<and> a \<noteq> []
        \<longrightarrow> AddTask c nm cmdargs = Inr (Ok, c\<lparr>nextTasks := nextTasks c @
              [\<lparr>Name = nm, Command = a, Arguments = rest, tsParameters = [],
                task = Some (PluginTask p)\<rparr>]\<rparr>))
   \<and> (getTaskByName (tasks c) nm = Inr (Some (JobTask j))
        \<longrightarrow> AddTask c nm cmdargs = Inr (Ok, c\<lparr>nextTasks := nextTasks c @
              [\<lparr>Name = nm, Command = ''run'', Arguments = [], tsParameters = [],
                task = Some (JobTask j)\<rparr>]\<rparr>))"
  by (auto simp: AddTask_def)

theorem AddTask_outcomes_witness:
  "AddTask exampleContext ''gone'' [''now''] = Inr (TaskNotFound, exampleContext)
   \<and> AddTask exampleContext ''files'' [] = Inr (MissingArguments, exampleContext)
   \<and> AddTask exampleContext ''files'' [[], ''x''] = Inr (MissingArguments, exampleContext)
   \<and> AddTask exampleContext ''files'' [''delete'', ''a.txt'']
       = Inr (Ok, exampleContext\<lparr>nextTasks :=
            [\<lparr>Name = ''files'', Command = ''delete'', Arguments = [''a.txt''], tsParameters = [],
              task = Some (PluginTask filesPlugin)\<rparr>]\<rparr>)
   \<and> AddTask exampleContext ''hello'' [''ignored'', ''too'']
       = Inr (Ok, exampleContext\<lparr>nextTasks :=
            [\<lparr>Name = ''hello'', Command = ''run'', Arguments = [], tsParameters = [],
              task = Some helloJob\<rparr>]\<rparr>)"
proof -
  have g: "getTaskByName (tasks exampleContext) ''gone'' = Inr None"
    by (simp add: exampleContext_def exampleTasks_def getTaskByName_def)
  have f: "getTaskByName (tasks exampleContext) ''files'' = Inr (Some (PluginTask filesPlugin))"
    by (simp add: exampleContext_def exampleTasks_def getTaskByName_def)
  have h: "getTaskByName (tasks exampleContext) ''hello''
             = Inr (Some (JobTask \<lparr>Verbose = False,
                 Parameters = [(''greeting'', ''hi''), (''HOME'', ''/srv/hello'')],
                 jobTask = \<lparr>name = ''hello'', NameSpace = ''hello'', Description = [], HistoryLogs = 0,
                             Disabled = False, reason = []\<rparr>\<rparr>))"
    by (simp add: exampleContext_def exampleTasks_def getTaskByName_def helloJob_def)
  have n: "nextTasks exampleContext = []" by (simp add: exampleContext_def)
  show ?thesis
    using AddTask_outcomes [where c = exampleContext and nm = "''gone''" and cmdargs = "[''now'']"] g
          AddTask_outcomes [where c = exampleContext and nm = "''files''" and p = filesPlugin
             and cmdargs = "[]"] f
          AddTask_outcomes [where c = exampleContext and nm = "''files''" and p = filesPlugin
             and cmdargs = "[[], ''x'']"]
          AddTask_outcomes [where c = exampleContext and nm = "''files''" and p = filesPlugin
             and cmdargs = "[''delete'', ''a.txt'']" and a = "''delete''" and rest = "[''a.txt'']"]
          AddTask_outcomes [where c = exampleContext and nm = "''hello''"
             and cmdargs = "[''ignored'', ''too'']"
             and j = "\<lparr>Verbose = False,
                 Parameters = [(''greeting'', ''hi''), (''HOME'', ''/srv/hello'')],
                 jobTask = \<lparr>name = ''hello'', NameSpace = ''hello'', Description = [], HistoryLogs = 0,
                             Disabled = False, reason = []\<rparr>\<rparr>"] h n
    by (simp add: helloJob_def)
qed

lemma lastN_append_lastN: "lastN k (lastN k xs @ ys) = lastN k (xs @ ys)"
proof (cases "k \<le> length xs")
  case True
  then have "length xs - (length xs - k) = k" by simp
  with True show ?thesis by (simp add: lastN_def add.commute)
next
  case False
  then show ?thesis by (simp add: lastN_def)
qed

lemma appendHistory_lastN:
  assumes "0 < K"
  shows "appendHistory (int K) start th
           = Inr \<lparr>NextIndex = NextIndex th + 1,
                  Histories = lastN K (Histories th @ [\<lparr>LogIndex = NextIndex th, CreateTime = start\<rparr>])\<rparr>"
proof -
  let ?hs = "Histories th @ [\<lparr>LogIndex = NextIndex th, CreateTime = start\<rparr>]"
  have len: "int (length ?hs) = int (length (Histories th)) + 1" by simp
  show ?thesis
  proof (cases "int (length ?hs) > int K")
    case True
    then have "nat (int (length ?hs) - int K) = length ?hs - K" by simp
    with True show ?thesis
      unfolding appendHistory_def Let_def lastN_def by (simp del: length_append)
  next
    case False
    then have "length ?hs - K = 0" by simp
    with False show ?thesis
      unfolding appendHistory_def Let_def lastN_def by (simp del: length_append)
  qed
qed

lemma length_entriesFrom: "length (entriesFrom n orcs) = length orcs"
  by (induction orcs arbitrary: n) auto

lemma LogIndex_entriesFrom:
  "map LogIndex (entriesFrom n orcs) = map (\<lambda>i. n + of_nat i) [0..<length orcs]"
proof (induction orcs arbitrary: n)
  case Nil
  show ?case by simp
next
  case (Cons orc orcs)
  have "[0..<length (orc # orcs)] = 0 # map Suc [0..<length orcs]"
    by (simp add: upt_conv_Cons map_Suc_upt del: upt_Suc)
  then show ?case using Cons.IH [of "n + 1"] by (simp add: o_def algebra_simps del: upt_Suc)
qed

lemma historyBlock_ok:
  assumes "0 < K" "HistoryLogs tk = int K" "checkoutRet orc = Ok" "updateRet orc = Ok"
  shows "\<exists>lg. historyBlock cfg tk isJob pName orc store
           = Inr (NextIndex (checkedOut store (histPrefix cfg @ pName)),
                  store(histPrefix cfg @ pName \<mapsto>
                    \<lparr>NextIndex = NextIndex (checkedOut store (histPrefix cfg @ pName)) + 1,
                     Histories = lastN K (Histories (checkedOut store (histPrefix cfg @ pName))
                        @ [\<lparr>LogIndex = NextIndex (checkedOut store (histPrefix cfg @ pName)),
                            CreateTime = startTime orc\<rparr>])\<rparr>), lg)"
  using assms by (simp add: historyBlock_def Let_def appendHistory_lastN)

lemma historyRuns_ok:
  assumes "0 < K" "HistoryLogs tk = int K"
    and "list_all (\<lambda>orc. checkoutRet orc = Ok \<and> updateRet orc = Ok) orcs"
    and "orcs \<noteq> []"
  shows "historyRuns cfg tk isJob orcs store
           = Inr (store(histPrefix cfg @ name tk \<mapsto>
                    \<lparr>NextIndex = NextIndex (checkedOut store (histPrefix cfg @ name tk)) + of_nat (length orcs),
                     Histories = lastN K (Histories (checkedOut store (histPrefix cfg @ name tk))
                        @ entriesFrom (NextIndex (checkedOut store (histPrefix cfg @ name tk))) orcs)\<rparr>))"
  using assms(3,4)
proof (induction orcs arbitrary: store)
  case Nil
  then show ?case by simp
next
  case (Cons orc orcs)
  let ?key = "histPrefix cfg @ name tk"
  let ?th = "checkedOut store ?key"
  let ?th1 = "\<lparr>NextIndex = NextIndex ?th + 1,
               Histories = lastN K (Histories ?th @ [\<lparr>LogIndex = NextIndex ?th, CreateTime = startTime orc\<rparr>])\<rparr>"
  let ?store1 = "store(?key \<mapsto> ?th1)"
  from Cons.prems have ok: "checkoutRet orc = Ok" "updateRet orc = Ok" by simp_all
  from historyBlock_ok [OF assms(1,2) ok, of cfg isJob "name tk" store]
  obtain lg where hb: "historyBlock cfg tk isJob (name tk) orc store = Inr (NextIndex ?th, ?store1, lg)"
    by blast
  have step: "historyRuns cfg tk isJob (orc # orcs) store = historyRuns cfg tk isJob orcs ?store1"
    using hb by simp
  have co: "checkedOut ?store1 ?key = ?th1" by (simp add: checkedOut_def)
  show ?case
  proof (cases "orcs = []")
    case True
    from hb have "historyRuns cfg tk isJob [orc] store = Inr ?store1" by simp
    then show ?thesis unfolding True by (simp add: fun_eq_iff)
  next
    case False
    from Cons.prems have "list_all (\<lambda>orc. checkoutRet orc = Ok \<and> updateRet orc = Ok) orcs" by simp
    from Cons.IH [OF this False, of ?store1]
    have "historyRuns cfg tk isJob orcs ?store1
            = Inr (?store1(?key \<mapsto>
                    \<lparr>NextIndex = NextIndex ?th1 + of_nat (length orcs),
                     Histories = lastN K (Histories ?th1 @ entriesFrom (NextIndex ?th1) orcs)\<rparr>))"
      unfolding co .
    also have "?store1(?key \<mapsto>
                    \<lparr>NextIndex = NextIndex ?th1 + of_nat (length orcs),
                     Histories = lastN K (Histories ?th1 @ entriesFrom (NextIndex ?th1) orcs)\<rparr>)
          = store(?key \<mapsto>
                    \<lparr>NextIndex = NextIndex ?th + of_nat (length (orc # orcs)),
                     Histories = lastN K (Histories ?th @ entriesFrom (NextIndex ?th) (orc # orcs))\<rparr>)"
      by (simp add: lastN_append_lastN add.assoc)
    finally have fin: "historyRuns cfg tk isJob orcs ?store1
          = Inr (store(?key \<mapsto>
                    \<lparr>NextIndex = NextIndex ?th + of_nat (length (orc # orcs)),
                     Histories = lastN K (Histories ?th @ entriesFrom (NextIndex ?th) (orc # orcs))\<rparr>))" .
    show ?thesis by (rule trans [OF step fin])
  qed
qed

text \<open>
  C7. After \<open>M\<close> runs of a task that retains \<open>K\<close> histories, \<open>0 < K < M\<close>,
  each run checking the record out and storing it back with success, the stored record
  holds exactly \<open>K\<close> entries; they are the entries of the last \<open>K\<close> runs, in order:
  their indices are the last \<open>K\<close> of the \<open>M\<close> indices given out and their times
  the start times of the last \<open>K\<close> runs; and \<open>NextIndex\<close> has been incremented
  once for each run. The indices are Go \<open>int\<close> values and the increments are the
  ones of the code, which wrap around.
\<close>

theorem history_retention:
  assumes "0 < K" and "K < length orcs" and "HistoryLogs tk = int K"
    and "list_all (\<lambda>orc. checkoutRet orc = Ok \<and> updateRet orc = Ok) orcs"
  shows "\<exists>store' th. historyRuns cfg tk isJob orcs store = Inr store'
           \<and> store' (histPrefix cfg @ name tk) = Some th
           \<and> length (Histories th) = K
           \<and> map LogIndex (Histories th)
               = map (\<lambda>i. NextIndex (checkedOut store (histPrefix cfg @ name tk)) + of_nat i)
                   [length orcs - K ..< length orcs]
           \<and> map CreateTime (Histories th) = map startTime (drop (length orcs - K) orcs)
           \<and> NextIndex th = NextIndex (checkedOut store (histPrefix cfg @ name tk)) + of_nat (length orcs)"
proof -
  let ?key = "histPrefix cfg @ name tk"
  let ?n0 = "NextIndex (checkedOut store ?key)"
  let ?H0 = "Histories (checkedOut store ?key)"
  let ?E = "entriesFrom ?n0 orcs"
  let ?th = "\<lparr>NextIndex = ?n0 + of_nat (length orcs), Histories = lastN K (?H0 @ ?E)\<rparr>"
  from assms(2) have ne: "orcs \<noteq> []" by auto
  have run: "historyRuns cfg tk isJob orcs store = Inr (store(?key \<mapsto> ?th))"
    by (rule historyRuns_ok [OF assms(1,3,4) ne])
  have lenE: "length ?E = length orcs" by (rule length_entriesFrom)
  have last: "lastN K (?H0 @ ?E) = drop (length orcs - K) ?E"
    using assms(2) lenE by (simp add: lastN_def)
  have l: "length (lastN K (?H0 @ ?E)) = K"
    using assms(2) lenE by (simp add: last)
  have idx: "map LogIndex (lastN K (?H0 @ ?E)) = map (\<lambda>i. ?n0 + of_nat i) [length orcs - K ..< length orcs]"
    unfolding last drop_map [symmetric] LogIndex_entriesFrom by (simp add: drop_map)
  have ct0: "map CreateTime (entriesFrom n os) = map startTime os" for n os
    by (induction os arbitrary: n) auto
  have ct: "map CreateTime (lastN K (?H0 @ ?E)) = map startTime (drop (length orcs - K) orcs)"
    unfolding last drop_map [symmetric] ct0 ..
  show ?thesis
    using run l idx ct by simp
qed


theorem history_retention_witness:
  "(\<exists>store' th.
      historyRuns exampleConfig deployTask True [okOracle ''Mon'', okOracle ''Tue'', okOracle ''Wed''] Map.empty
        = Inr store'
      \<and> store' ''bot:histories:deploy'' = Some th
      \<and> length (Histories th) = 2
      \<and> map LogIndex (Histories th) = [1, 2]
      \<and> map CreateTime (Histories th) = [''Tue'', ''Wed'']
      \<and> NextIndex th = 3)
   \<and> (\<exists>store' th.
      historyRuns exampleConfig deployTask True [okOracle ''Mon'', okOracle ''Tue'', okOracle ''Wed'']
          [''bot:histories:deploy'' \<mapsto> \<lparr>NextIndex = 0x7FFFFFFFFFFFFFFE, Histories = []\<rparr>]
        = Inr store'
      \<and> store' ''bot:histories:deploy'' = Some th
      \<and> length (Histories th) = 2
      \<and> map LogIndex (Histories th) = [0x7FFFFFFFFFFFFFFF, 0x8000000000000000]
      \<and> map CreateTime (Histories th) = [''Tue'', ''Wed'']
      \<and> NextIndex th = 0x8000000000000001)"
proof -
  have h1: "0 < (2::nat)" by simp
  have h2: "2 < length [okOracle ''Mon'', okOracle ''Tue'', okOracle ''Wed'']" by simp
  have h3: "HistoryLogs deployTask = int 2" by (simp add: deployTask_def)
  have h4: "list_all (\<lambda>orc. checkoutRet orc = Ok \<and> updateRet orc = Ok)
              [okOracle ''Mon'', okOracle ''Tue'', okOracle ''Wed'']"
    by (simp add: okOracle_def)
  have e: "[Suc 0..<3] = [1, 2]" by (simp add: upt_conv_Cons)
  from history_retention [OF h1 h2 h3 h4, of exampleConfig True Map.empty]
  have a: "\<exists>store' th.
      historyRuns exampleConfig deployTask True [okOracle ''Mon'', okOracle ''Tue'', okOracle ''Wed''] Map.empty
        = Inr store'
      \<and> store' ''bot:histories:deploy'' = Some th
      \<and> length (Histories th) = 2
      \<and> map LogIndex (Histories th) = [1, 2]
      \<and> map CreateTime (Histories th) = [''Tue'', ''Wed'']
      \<and> NextIndex th = 3"
    by (simp add: exampleConfig_def deployTask_def checkedOut_def okOracle_def e)
  from history_retention [OF h1 h2 h3 h4, of exampleConfig True
         "[''bot:histories:deploy'' \<mapsto> \<lparr>NextIndex = 0x7FFFFFFFFFFFFFFE, Histories = []\<rparr>]"]
  have b: "\<exists>store' th.
      historyRuns exampleConfig deployTask True [okOracle ''Mon'', okOracle ''Tue'', okOracle ''Wed'']
          [''bot:histories:deploy'' \<mapsto> \<lparr>NextIndex = 0x7FFFFFFFFFFFFFFE, Histories = []\<rparr>]
        = Inr store'
      \<and> store' ''bot:histories:deploy'' = Some th
      \<and> length (Histories th) = 2
      \<and> map LogIndex (Histories th) = [0x7FFFFFFFFFFFFFFF, 0x8000000000000000]
      \<and> map CreateTime (Histories th) = [''Tue'', ''Wed'']
      \<and> NextIndex th = 0x8000000000000001"
    by (simp add: exampleConfig_def deployTask_def checkedOut_def okOracle_def e)
  from a b show ?thesis by (rule conjI)
qed

declare decimalNat.simps [simp del]


lemma nextRunID_nonzero: "nextRunID i \<noteq> 0"
  by (simp add: nextRunID_def)

lemma unat_nextRunID:
  assumes "x \<noteq> 0"
  shows "unat (nextRunID x) - 1 = (unat x - 1 + 1) mod (2 ^ 64 - 1)"
proof (cases "x + 1 = 0")
  case True
  then have "x = - 1" by (simp add: eq_neg_iff_add_eq_0)
  then have "unat x = 2 ^ 64 - 1" by (simp add: unsigned_minus_1_eq_mask mask_eq_exp_minus_1)
  with True show ?thesis by (simp add: nextRunID_def)
next
  case False
  then have s: "unat (x + 1) = Suc (unat x)" using unatSuc [of x] by (simp add: add.commute)
  have "unat (x + 1) < 2 ^ 64" using unsigned_less [of "x + 1", where 'a = nat] by simp
  with s have lt: "unat x < 2 ^ 64 - 1" by simp
  from assms have pos: "0 < unat x" by (simp add: unat_gt_0)
  from False s lt pos show ?thesis by (simp add: nextRunID_def)
qed

lemma unat_funpow_nextRunID:
  assumes "x \<noteq> 0"
  shows "(nextRunID ^^ n) x \<noteq> 0 \<and> unat ((nextRunID ^^ n) x) - 1 = (unat x - 1 + n) mod (2 ^ 64 - 1)"
proof (induction n)
  case 0
  have "unat x < 2 ^ 64" using unsigned_less [of x, where 'a = nat] by simp
  moreover from assms have "0 < unat x" by (simp add: unat_gt_0)
  ultimately show ?case using assms by simp
next
  case (Suc n)
  then have nz: "(nextRunID ^^ n) x \<noteq> 0"
    and u: "unat ((nextRunID ^^ n) x) - 1 = (unat x - 1 + n) mod (2 ^ 64 - 1)" by simp_all
  have "unat ((nextRunID ^^ Suc n) x) - 1 = (unat ((nextRunID ^^ n) x) - 1 + 1) mod (2 ^ 64 - 1)"
    using unat_nextRunID [OF nz] by simp
  also have "\<dots> = ((unat x - 1 + n) mod (2 ^ 64 - 1) + 1) mod (2 ^ 64 - 1)" by (simp only: u)
  also have "\<dots> = (unat x - 1 + Suc n) mod (2 ^ 64 - 1)" by (simp add: mod_Suc_eq)
  finally show ?case by (simp add: nextRunID_nonzero)
qed

lemma funpow_nextRunID_distinct:
  assumes "j < k" and "k < 2 ^ 64 - 1"
  shows "(nextRunID ^^ Suc j) i \<noteq> (nextRunID ^^ Suc k) i"
proof
  let ?M = "2 ^ 64 - 1 :: nat"
  let ?x = "nextRunID i"
  assume eq: "(nextRunID ^^ Suc j) i = (nextRunID ^^ Suc k) i"
  have sw: "(nextRunID ^^ Suc n) i = (nextRunID ^^ n) ?x" for n
    by (simp add: funpow_swap1)
  from eq have "unat ((nextRunID ^^ j) ?x) - 1 = unat ((nextRunID ^^ k) ?x) - 1"
    by (simp only: sw)
  then have m: "(unat ?x - 1 + j) mod ?M = (unat ?x - 1 + k) mod ?M"
    using unat_funpow_nextRunID [OF nextRunID_nonzero, of j i] unat_funpow_nextRunID [OF nextRunID_nonzero, of k i]
    by simp
  from assms(1) have le: "unat ?x - 1 + j \<le> unat ?x - 1 + k" by simp
  from m have "(unat ?x - 1 + k) mod ?M = (unat ?x - 1 + j) mod ?M" by simp
  then have "?M dvd (unat ?x - 1 + k) - (unat ?x - 1 + j)"
    using le by (simp only: mod_eq_dvd_iff_nat)
  then have "?M dvd k - j" using assms(1) by simp
  moreover from assms have "0 < k - j" "k - j < ?M" by simp_all
  ultimately have False using dvd_imp_le [of ?M "k - j"] by simp
  then show False .

qed


lemma registerActive_id:
  "id_run (fst (registerActive cfg c reg)) = nextRunID (idx reg)
   \<and> idx (snd (registerActive cfg c reg)) = nextRunID (idx reg)
   \<and> activeRobots (snd (registerActive cfg c reg))
       = (activeRobots reg)(nextRunID (idx reg) \<mapsto> fst (registerActive cfg c reg))"
  by (simp add: registerActive_def Let_def)

lemma registryRun_ids:
  "snd (registryRun cfg reg ops)
     = map (\<lambda>k. (nextRunID ^^ Suc k) (idx reg)) [0..<length (snd (registryRun cfg reg ops))]"
proof (induction ops arbitrary: reg)
  case Nil
  show ?case by simp
next
  case (Cons op ops)
  show ?case
  proof (cases op)
    case (Register c)
    obtain c' reg' where ra: "registerActive cfg c reg = (c', reg')"
      by (cases "registerActive cfg c reg")
    from registerActive_id [of cfg c reg] ra
    have c': "id_run c' = nextRunID (idx reg)" and r': "idx reg' = nextRunID (idx reg)" by simp_all
    let ?ids = "snd (registryRun cfg reg' ops)"
    have run: "snd (registryRun cfg reg (op # ops)) = nextRunID (idx reg) # ?ids"
      using Register ra c' by (simp split: prod.splits)
    have ih: "?ids = map (\<lambda>k. (nextRunID ^^ Suc k) (idx reg')) [0..<length ?ids]"
      by (rule Cons.IH)
    have up: "[0..<Suc (length ?ids)] = 0 # map Suc [0..<length ?ids]"
      by (simp add: upt_conv_Cons map_Suc_upt del: upt_Suc)
    have "map (\<lambda>k. (nextRunID ^^ Suc k) (idx reg)) [0..<Suc (length ?ids)]
            = nextRunID (idx reg) # map (\<lambda>k. (nextRunID ^^ Suc k) (idx reg')) [0..<length ?ids]"
      unfolding up r' by (simp add: o_def funpow_swap1 del: upt_Suc)
    also have "\<dots> = nextRunID (idx reg) # ?ids" using ih by simp
    finally show ?thesis using run by simp
  next
    case (Deregister i)
    from Cons.IH [of "reg\<lparr>activeRobots := (activeRobots reg)(i := None)\<rparr>"] Deregister
    show ?thesis by simp
  qed
qed

lemma registryRun_distinct:
  assumes "length (snd (registryRun cfg reg ops)) < 2 ^ 64"
  shows "distinct (snd (registryRun cfg reg ops)) \<and> 0 \<notin> set (snd (registryRun cfg reg ops))"
proof -
  let ?n = "length (snd (registryRun cfg reg ops))"
  let ?f = "\<lambda>k. (nextRunID ^^ Suc k) (idx reg)"
  have ids: "snd (registryRun cfg reg ops) = map ?f [0..<?n]" by (rule registryRun_ids)
  have inj: "inj_on ?f (set [0..<?n])"
  proof (rule inj_onI)
    fix j k assume j: "j \<in> set [0..<?n]" and k: "k \<in> set [0..<?n]" and e: "?f j = ?f k"
    from j k assms have b: "j < 2 ^ 64 - 1" "k < 2 ^ 64 - 1" by simp_all
    show "j = k"
    proof (rule ccontr)
      assume "j \<noteq> k"
      then consider "j < k" | "k < j" by linarith
      then show False
      proof cases
        case 1
        from funpow_nextRunID_distinct [OF 1 b(2), of "idx reg"] e show False by simp
      next
        case 2
        from funpow_nextRunID_distinct [OF 2 b(1), of "idx reg"] e show False by simp
      qed
    qed
  qed
  have d: "distinct (map ?f [0..<?n])" using inj by (simp add: distinct_map)
  have z: "0 \<notin> set (map ?f [0..<?n])" by (auto simp: nextRunID_nonzero)
  have "distinct (snd (registryRun cfg reg ops))" by (subst ids) (rule d)
  moreover have "0 \<notin> set (snd (registryRun cfg reg ops))" by (subst ids) (rule z)
  ultimately show ?thesis by simp
qed

lemma registryRun_zero_free:
  "activeRobots reg 0 = None \<Longrightarrow> activeRobots (fst (registryRun cfg reg ops)) 0 = None"
proof (induction ops arbitrary: reg)
  case Nil
  then show ?case by simp
next
  case (Cons op ops)
  show ?case
  proof (cases op)
    case (Register c)
    obtain c' reg' where ra: "registerActive cfg c reg = (c', reg')"
      by (cases "registerActive cfg c reg")
    from registerActive_id [of cfg c reg] ra Cons.prems
    have "activeRobots reg' 0 = None"
      using nextRunID_nonzero [of "idx reg"] by auto
    from Cons.IH [OF this] Register ra show ?thesis
      by (cases "registryRun cfg reg' ops") simp
  next
    case (Deregister i)
    from Cons.prems
    have "activeRobots (reg\<lparr>activeRobots := (activeRobots reg)(i := None)\<rparr>) 0 = None" by simp
    from Cons.IH [OF this] Deregister show ?thesis by simp
  qed
qed

lemma nextRunID_increases:
  assumes "i \<noteq> 0x7FFFFFFFFFFFFFFF"
  shows "sint i < sint (nextRunID i)"
proof (cases "i + 1 = 0")
  case True
  then have "i = - 1" by (simp add: eq_neg_iff_add_eq_0)
  then show ?thesis by (simp add: nextRunID_def)
next
  case False
  have lt: "sint i < 2 ^ 63" using sint_lt [of i] by simp
  have ge: "- (2 ^ 63) \<le> sint i" using sint_ge [of i] by simp
  have "sint i \<noteq> 2 ^ 63 - 1"
  proof
    assume "sint i = 2 ^ 63 - 1"
    then have "sint i = sint (0x7FFFFFFFFFFFFFFF :: 64 word)" by simp
    then have "i = 0x7FFFFFFFFFFFFFFF" by (rule signed_word_eqI)
    with assms show False by simp
  qed
  with lt have b: "sint i + 1 < 2 ^ 63" by simp
  have "sint (i + 1) = signed_take_bit 63 (sint i + 1)"
    by (simp add: sint_word_ariths)
  also have "\<dots> = sint i + 1"
    using ge b by (simp add: signed_take_bit_int_eq_self)
  finally show ?thesis using False by (simp add: nextRunID_def)
qed

text \<open>
  C4, as the code has it. \<open>registerActive\<close> assigns the counter's successor in
  wrap-around arithmetic, with zero replaced by one: the ID is never zero, it becomes
  the new counter value and the key of the run in the table, and it is greater (as a
  signed integer) than the counter before unless that stood at the largest \<open>int\<close>.
  In any history of registrations and deregistrations, zero never becomes a key of the
  table, and the IDs assigned by fewer than \<open>2 ^ 64\<close> registrations are pairwise
  distinct and not zero.
\<close>

theorem run_ids_wrap:
  "id_run (fst (registerActive cfg c reg)) = nextRunID (idx reg)
   \<and> id_run (fst (registerActive cfg c reg)) \<noteq> 0
   \<and> idx (snd (registerActive cfg c reg)) = id_run (fst (registerActive cfg c reg))
   \<and> activeRobots (snd (registerActive cfg c reg)) (id_run (fst (registerActive cfg c reg)))
       = Some (fst (registerActive cfg c reg))
   \<and> (idx reg \<noteq> 0x7FFFFFFFFFFFFFFF
        \<longrightarrow> sint (idx reg) < sint (id_run (fst (registerActive cfg c reg))))
   \<and> (activeRobots reg 0 = None \<longrightarrow> activeRobots (fst (registryRun cfg reg ops)) 0 = None)
   \<and> (length (snd (registryRun cfg reg ops)) < 2 ^ 64
        \<longrightarrow> distinct (snd (registryRun cfg reg ops)) \<and> 0 \<notin> set (snd (registryRun cfg reg ops)))"
  using registerActive_id [of cfg c reg] nextRunID_nonzero [of "idx reg"]
    nextRunID_increases [of "idx reg"] registryRun_zero_free [of reg cfg ops]
    registryRun_distinct [of cfg reg ops]
  by simp

text \<open>
  C4, as stated, fails where the counter stands at the largest \<open>int\<close>: the ID assigned
  next is the smallest \<open>int\<close>, below the one before.
\<close>

theorem run_ids_not_monotone:
  "sint (id_run (fst (registerActive exampleConfig exampleContext
           \<lparr>idx = 0x7FFFFFFFFFFFFFFF, activeRobots = Map.empty\<rparr>)))
     < sint (0x7FFFFFFFFFFFFFFF :: 64 word)"
  by (simp add: registerActive_def Let_def nextRunID_def)

text \<open>After \<open>2 ^ 64 - 1\<close> further registrations the counter is back at the same ID.\<close>

lemma run_id_reused_after_cycle: "(nextRunID ^^ (2 ^ 64 - 1)) 7 = 7"
proof -
  have nz: "(7 :: 64 word) \<noteq> 0" by simp
  from unat_funpow_nextRunID [OF nz, of "2 ^ 64 - 1"]
  have a: "(nextRunID ^^ (2 ^ 64 - 1)) 7 \<noteq> 0"
    and "unat ((nextRunID ^^ (2 ^ 64 - 1)) 7) - 1 = (unat (7 :: 64 word) - 1 + (2 ^ 64 - 1)) mod (2 ^ 64 - 1)"
    by simp_all
  then have "unat ((nextRunID ^^ (2 ^ 64 - 1)) 7) - 1 = 6" by simp
  moreover from a have "0 < unat ((nextRunID ^^ (2 ^ 64 - 1)) 7)" by (simp add: unat_gt_0)
  ultimately have "unat ((nextRunID ^^ (2 ^ 64 - 1)) 7) = unat (7 :: 64 word)" by simp
  then show ?thesis by (rule unsigned_word_eqI)
qed


theorem run_ids_wrap_witness:
  "id_run (fst (registerActive exampleConfig exampleContext wrapRegistry)) = 1
   \<and> sint (idx wrapRegistry) < sint (id_run (fst (registerActive exampleConfig exampleContext wrapRegistry)))
   \<and> activeRobots (fst (registryRun exampleConfig wrapRegistry exampleOps)) 0 = None
   \<and> snd (registryRun exampleConfig wrapRegistry exampleOps) = [1, 2, 3]
   \<and> distinct (snd (registryRun exampleConfig wrapRegistry exampleOps))"
proof -
  have ids: "snd (registryRun exampleConfig wrapRegistry exampleOps) = [1, 2, 3]"
    by (simp add: exampleOps_def wrapRegistry_def registerActive_def Let_def nextRunID_def)
  have h1: "idx wrapRegistry \<noteq> 0x7FFFFFFFFFFFFFFF" by (simp add: wrapRegistry_def)
  have h2: "activeRobots wrapRegistry 0 = None" by (simp add: wrapRegistry_def)
  have h3: "length (snd (registryRun exampleConfig wrapRegistry exampleOps)) < 2 ^ 64"
    by (simp add: ids)
  have n: "nextRunID (idx wrapRegistry) = 1" by (simp add: wrapRegistry_def nextRunID_def)
  from run_ids_wrap [of exampleConfig exampleContext wrapRegistry exampleOps] h1 h2 h3
  have a: "id_run (fst (registerActive exampleConfig exampleContext wrapRegistry))
             = nextRunID (idx wrapRegistry)"
    and b: "sint (idx wrapRegistry)
             < sint (id_run (fst (registerActive exampleConfig exampleContext wrapRegistry)))"
    and c: "activeRobots (fst (registryRun exampleConfig wrapRegistry exampleOps)) 0 = None"
    and d: "distinct (snd (registryRun exampleConfig wrapRegistry exampleOps))"
    by blast+
  from a n b c d ids show ?thesis by (intro conjI) simp_all
qed

declare pipelineLoop.simps(2) [simp del]

lemma getTaskByName_files:
  "getTaskByName exampleTasks ''files'' = Inr (Some (PluginTask filesPlugin))"
  by (simp add: exampleTasks_def getTaskByName_def)

lemma chain_first_pass:
  "loopBody exampleConfig chainOracles (makeRobot exampleContext) (Some chainPlugin) True 0
      exampleContext (PluginTask chainPlugin) True ''go'' []
   = Again (exampleContext\<lparr>currentTask := Some (PluginTask chainPlugin)\<rparr>)
       \<lparr>Name = ''files'', Command = ''delete'', Arguments = [''a.txt''], tsParameters = [],
        task = Some (PluginTask filesPlugin)\<rparr>
       (PluginTask filesPlugin) True ''delete'' [''a.txt'']
       [\<lparr>Name = ''files'', Command = ''delete'', Arguments = [''a.txt''], tsParameters = [],
         task = Some (PluginTask filesPlugin)\<rparr>]
       exampleContext Normal"
  by (simp add: loopBody_def adminGate_def securityGate_def callTask_def AddTask_def
        chainOracles_def chainPlugin_def exampleContext_def getTaskByName_files Let_def)

lemma chain_second_pass:
  "loopBody exampleConfig chainOracles (makeRobot exampleContext) (Some chainPlugin) True (Suc 0)
      (exampleContext\<lparr>currentTask := Some (PluginTask chainPlugin)\<rparr>)
      (PluginTask filesPlugin) True ''delete'' [''a.txt'']
   = Stop ((halt (Ended Normal) (exampleContext\<lparr>currentTask := Some (PluginTask filesPlugin)\<rparr>)
             (PluginTask filesPlugin))
           \<lparr>ran := [(PluginTask filesPlugin, ''delete'', [''a.txt''])],
            called := [(Suc 0, exampleContext\<lparr>currentTask := Some (PluginTask chainPlugin)\<rparr>)],
            rets := [Normal]\<rparr>)"
  by (simp add: loopBody_def adminGate_def securityGate_def callTask_def
        chainOracles_def chainPlugin_def filesPlugin_def exampleContext_def Let_def halt_def)

lemma chain_run:
  "pipelineLoop 5 exampleConfig chainOracles (makeRobot exampleContext) (Some chainPlugin)
      True 0 exampleContext (PluginTask chainPlugin) True ''go'' []
   = \<lparr>ending = Ended Normal,
      finalBot = exampleContext\<lparr>currentTask := Some (PluginTask filesPlugin)\<rparr>,
      finalTask = PluginTask filesPlugin, sent = [],
      ran = [(PluginTask chainPlugin, ''go'', []), (PluginTask filesPlugin, ''delete'', [''a.txt''])],
      called = [(0, exampleContext),
                (1, exampleContext\<lparr>currentTask := Some (PluginTask chainPlugin)\<rparr>)],
      rets = [Normal, Normal],
      queued = [\<lparr>Name = ''files'', Command = ''delete'', Arguments = [''a.txt''],
                 tsParameters = [], task = Some (PluginTask filesPlugin)\<rparr>],
      dequeued = [\<lparr>Name = ''files'', Command = ''delete'', Arguments = [''a.txt''],
                   tsParameters = [], task = Some (PluginTask filesPlugin)\<rparr>]\<rparr>"
  by (simp add: eval_nat_numeral pipelineLoop.simps(2) chain_first_pass chain_second_pass halt_def)

text \<open>
  C6. What the code does for an administrator command that is reached through the
  queue. The run is started by \<open>alice\<close>, who is not an administrator, with the plugin
  \<open>chain\<close>, which has no administrator commands; its task queues the command
  \<open>delete\<close> of the plugin \<open>files\<close>, which is in the \<open>AdminCommands\<close> of
  \<open>files\<close>. The check of the second pass still reads the \<open>AdminCommands\<close> of
  \<open>chain\<close>: \<open>callTask\<close> is called for \<open>delete\<close>, no message is sent and the run
  ends with \<open>Normal\<close>.
\<close>

theorem queued_admin_command_runs:
  "\<not> CheckAdmin exampleConfig (makeRobot exampleContext)
   \<and> list_ex (\<lambda>i. ''delete'' = i) (AdminCommands filesPlugin)
   \<and> ran (pipelineLoop 5 exampleConfig chainOracles (makeRobot exampleContext) (Some chainPlugin)
            True 0 exampleContext (PluginTask chainPlugin) True ''go'' [])
       = [(PluginTask chainPlugin, ''go'', []), (PluginTask filesPlugin, ''delete'', [''a.txt''])]
   \<and> ending (pipelineLoop 5 exampleConfig chainOracles (makeRobot exampleContext) (Some chainPlugin)
            True 0 exampleContext (PluginTask chainPlugin) True ''go'' [])
       = Ended Normal
   \<and> sent (pipelineLoop 5 exampleConfig chainOracles (makeRobot exampleContext) (Some chainPlugin)
            True 0 exampleContext (PluginTask chainPlugin) True ''go'' [])
       = []"
  unfolding chain_run
  by (simp add: CheckAdmin_def makeRobot_def exampleConfig_def exampleContext_def filesPlugin_def)








lemma loopBody_not_ran:
  "adminGate cfg r plugin isPlugin cmd = Inl p
     \<Longrightarrow> loopBody cfg orc r plugin interactive i b t isPlugin cmd args = Stop (halt (Panic p) b t)"
  "adminGate cfg r plugin isPlugin cmd = Inr True
     \<Longrightarrow> loopBody cfg orc r plugin interactive i b t isPlugin cmd args
           = Stop ((halt (Ended Fail) b t)\<lparr>sent := [SayMsg adminDenied]\<rparr>)"
  "adminGate cfg r plugin isPlugin cmd = Inr False \<Longrightarrow> securityGate orc i b t cmd args = (False, b1)
     \<Longrightarrow> loopBody cfg orc r plugin interactive i b t isPlugin cmd args = Stop (halt (Ended Fail) b1 t)"
  "adminGate cfg r plugin isPlugin cmd = Inr False \<Longrightarrow> securityGate orc i b t cmd args = (True, b1)
     \<Longrightarrow> callTask orc i b1 t cmd args = Inl p
     \<Longrightarrow> loopBody cfg orc r plugin interactive i b t isPlugin cmd args
           = Stop ((halt (Panic p) b1 t)\<lparr>ran := [(t, cmd, args)], called := [(i, b1)]\<rparr>)"
  by (simp_all add: loopBody_def)















text \<open>
  For the task that starts the run the check does what the specification says: a command
  in its \<open>AdminCommands\<close> from a user who is not an administrator ends the run with
  \<open>Fail\<close> and one refusal, and \<open>callTask\<close> is not called.
\<close>

lemma admin_command_refused_at_start:
  assumes "list_ex (\<lambda>i. cmd = i) (AdminCommands p)" and "\<not> CheckAdmin cfg r"
  shows "pipelineLoop (Suc n) cfg orc r (Some p) interactive i b (PluginTask p) True cmd args
           = (halt (Ended Fail) b (PluginTask p))\<lparr>sent := [SayMsg adminDenied]\<rparr>"
proof -
  from assms(1) have "AdminCommands p \<noteq> []" by (cases "AdminCommands p") auto
  with assms have "adminGate cfg r (Some p) True cmd = Inr True"
    by (simp add: adminGate_def)
  then show ?thesis by (simp add: pipelineLoop.simps(2) loopBody_not_ran)
qed

text \<open>
  A run started by a job has no \<open>plugin\<close>: when the job queues a plugin, the check
  of the next pass dereferences nil.
\<close>

lemma job_first_pass:
  "loopBody exampleConfig chainOracles (makeRobot exampleContext) None True 0
      exampleContext helloJob False ''run'' []
   = Again (exampleContext\<lparr>currentTask := Some helloJob\<rparr>)
       \<lparr>Name = ''files'', Command = ''delete'', Arguments = [''a.txt''], tsParameters = [],
        task = Some (PluginTask filesPlugin)\<rparr>
       (PluginTask filesPlugin) True ''delete'' [''a.txt'']
       [\<lparr>Name = ''files'', Command = ''delete'', Arguments = [''a.txt''], tsParameters = [],
         task = Some (PluginTask filesPlugin)\<rparr>]
       exampleContext Normal"
  by (simp add: loopBody_def adminGate_def securityGate_def callTask_def AddTask_def
        chainOracles_def helloJob_def exampleContext_def getTaskByName_files Let_def)

lemma job_queueing_plugin_panics:
  "ending (pipelineLoop 5 exampleConfig chainOracles (makeRobot exampleContext) None True 0
            exampleContext helloJob False ''run'' [])
     = Panic NilPointerDereference
   \<and> ran (pipelineLoop 5 exampleConfig chainOracles (makeRobot exampleContext) None True 0
            exampleContext helloJob False ''run'' [])
     = [(helloJob, ''run'', [])]"
  by (simp add: eval_nat_numeral pipelineLoop.simps(2) job_first_pass loopBody_not_ran
        adminGate_def halt_def)

end
